theory Spec2Isabelle
  imports Complex_Main
begin

section \<open>NetworkSpread: the contagion simulation of \<open>pages/index.js\<close>\<close>

text \<open>
  The page component \<open>Home\<close> keeps the simulation in React state and refs and advances it
  from an animation-frame callback, \<open>animatePeople\<close>. The embedding below makes that state an
  explicit record and every handler a function from state to state.

  Modelling conventions.
  \<^item> Finite JavaScript numbers are real numbers (rounding of doubles is not modelled);
    the non-finite values are kept where the code can produce or receive them: the
    infection rate (a division by the pool size) and the radius (a \<open>parseFloat\<close> result).
  \<^item> \<open>Date.now()\<close> is an integer number of milliseconds, passed in as \<open>now\<close>.
  \<^item> \<open>Math.random()\<close> is a stream \<open>rnd\<close> of draws; the state field \<open>seed\<close> counts the draws
    made so far, so the \<open>n\<close>-th call returns \<open>rnd n\<close>.
  \<^item> A CSS colour string \<open>rgb(r, g, b)\<close> is the triple of its components.
  \<^item> Every state updater runs once per frame, in the order in which the hooks are declared
    (the behaviour of a production build).
\<close>

subsection \<open>JavaScript numbers that may be non-finite\<close>

datatype jsnum = Num real | PosInf | NegInf | NaN

text \<open>The comparison \<open>a < b\<close>: false as soon as one side is \<open>NaN\<close>.\<close>

fun js_lt :: "jsnum \<Rightarrow> jsnum \<Rightarrow> bool" where
  "js_lt NaN _ = False"
| "js_lt _ NaN = False"
| "js_lt (Num a) (Num b) = (a < b)"
| "js_lt (Num a) PosInf = True"
| "js_lt NegInf (Num b) = True"
| "js_lt NegInf PosInf = True"
| "js_lt _ _ = False"

text \<open>The comparison \<open>a >= b\<close>.\<close>

fun js_ge :: "jsnum \<Rightarrow> jsnum \<Rightarrow> bool" where
  "js_ge NaN _ = False"
| "js_ge _ NaN = False"
| "js_ge (Num a) (Num b) = (a \<ge> b)"
| "js_ge PosInf _ = True"
| "js_ge _ NegInf = True"
| "js_ge _ _ = False"

text \<open>\<open>Math.max(a, b)\<close>: \<open>NaN\<close> when either argument is.\<close>

fun js_max :: "jsnum \<Rightarrow> jsnum \<Rightarrow> jsnum" where
  "js_max NaN _ = NaN"
| "js_max _ NaN = NaN"
| "js_max PosInf _ = PosInf"
| "js_max _ PosInf = PosInf"
| "js_max NegInf b = b"
| "js_max a NegInf = a"
| "js_max (Num a) (Num b) = Num (max a b)"

text \<open>
  \<open>x.toFixed(1)\<close> read back as a number: the multiple of one tenth nearest to \<open>x\<close>, the
  larger one on a tie.
\<close>

definition toFixed1 :: "real \<Rightarrow> real" where
  "toFixed1 x = real_of_int \<lfloor>x * 10 + 1 / 2\<rfloor> / 10"

text \<open>
  \<open>parseFloat((cnt / len * 100).toFixed(1))\<close> for a count \<open>cnt\<close> and an array length \<open>len\<close>. With an
  empty pool the quotient is \<open>0 / 0 = NaN\<close> or \<open>n / 0 = Infinity\<close>, which \<open>toFixed\<close> and
  \<open>parseFloat\<close> pass through.
\<close>

definition ratePercent :: "nat \<Rightarrow> nat \<Rightarrow> jsnum" where
  "ratePercent cnt len =
     (if len = 0 then (if cnt = 0 then NaN else PosInf)
      else Num (toFixed1 (real cnt / real len * 100)))"

subsection \<open>Data\<close>

datatype rgb = RGB int int int

record person =
  pid :: nat
  coordinates :: "real \<times> real"
  destination :: "real \<times> real"
  color :: rgb
  progress :: real
  isDestabilized :: bool
  infectionTime :: "int option"
  speed :: real

record bounds =
  lng_min :: real
  lng_max :: real
  lat_min :: real
  lat_max :: real

definition SF_BOUNDS :: bounds where
  "SF_BOUNDS = \<lparr>lng_min = - 122.51, lng_max = - 122.39, lat_min = 37.70, lat_max = 37.80\<rparr>"

record connection =
  cid :: "nat \<times> nat"
  source :: "real \<times> real"
  target :: "real \<times> real"
  timestamp :: int

record hpoint =
  time :: real
  infected :: nat

record stats =
  totalAgents :: "nat option"
  infectedAgents :: nat
  infectionRate :: jsnum

record state =
  people :: "person list"
  simulationActive :: bool
  infectionRadius :: jsnum
  statistics :: stats
  lastUpdateTime :: int
  connections :: "connection list"
  infectionHistory :: "hpoint list"
  currentTime :: real
  startTime :: int
  maxStats :: stats
  seed :: nat
  capturedHistory :: "hpoint list"

text \<open>
  \<open>cid\<close> is the pair behind the edge id string \<open>`${person.id}-${otherPerson.id}`\<close>.
  \<open>maxStats\<close> is \<open>maxStatsRef.current\<close>, which has no \<open>totalAgents\<close> field; after the frame
  callback has stored it with \<open>setStatistics\<close> the field is absent there too (\<open>None\<close>).

  \<open>capturedHistory\<close> is the value of \<open>infectionHistory\<close> that the running animation effect has
  closed over. The effect lists \<open>[simulationActive, infectionRadius]\<close> as dependencies, so
  \<open>animatePeople\<close> is rebuilt, and sees a new \<open>infectionHistory\<close>, only when one of these two
  changes; between such changes every frame reads the same captured array, whatever
  \<open>setInfectionHistory\<close> has appended since. \<open>infectionRadius\<close> is itself a dependency, so
  the radius the callback reads is always the current one.
\<close>

subsection \<open>generatePeople\<close>

datatype error = RangeError | TypeError

definition sample :: "bounds \<Rightarrow> (nat \<Rightarrow> real) \<Rightarrow> nat \<Rightarrow> real \<times> real" where
  "sample b rnd k =
     (lng_min b + rnd k * (lng_max b - lng_min b),
      lat_min b + rnd (k + 1) * (lat_max b - lat_min b))"

text \<open>
  One element of \<open>Array(count).fill().map((_, i) => ...)\<close>; the object literal makes eight
  draws, in the order of its properties, starting at draw \<open>k\<close>.
\<close>

definition newPerson :: "bounds \<Rightarrow> (nat \<Rightarrow> real) \<Rightarrow> nat \<Rightarrow> nat \<Rightarrow> person" where
  "newPerson b rnd k i =
     \<lparr>pid = i,
      coordinates = sample b rnd k,
      destination = sample b rnd (k + 2),
      color = RGB \<lfloor>rnd (k + 4) * 100\<rfloor> \<lfloor>rnd (k + 5) * 155 + 100\<rfloor> \<lfloor>rnd (k + 6) * 100\<rfloor>,
      progress = 0,
      isDestabilized = False,
      infectionTime = None,
      speed = 0.002 + rnd (k + 7) * 0.002\<rparr>"

text \<open>
  \<open>Array(count)\<close> throws a \<open>RangeError\<close> for a negative length, and on an empty array
  \<open>people[0].isDestabilized = true\<close> throws a \<open>TypeError\<close>. The result carries the draw
  counter after the pool has been built.
\<close>

definition generatePeople ::
    "(nat \<Rightarrow> real) \<Rightarrow> nat \<Rightarrow> int \<Rightarrow> int \<Rightarrow> bounds \<Rightarrow> error + (person list \<times> nat)" where
  "generatePeople rnd k now count b =
     (if count < 0 then Inl RangeError
      else
        (let pool = map (\<lambda>i. newPerson b rnd (k + 8 * i) i) [0..<nat count]
         in case pool of
              [] \<Rightarrow> Inl TypeError
            | p # ps \<Rightarrow>
                Inr (p\<lparr>isDestabilized := True, infectionTime := Some now,
                        color := RGB 255 50 50\<rparr> # ps,
                     k + 8 * nat count)))"

subsection \<open>calculateDistance\<close>

definition calculateDistance :: "real \<times> real \<Rightarrow> real \<times> real \<Rightarrow> real" where
  "calculateDistance point1 point2 =
     (let dx = fst point1 - fst point2; dy = snd point1 - snd point2
      in sqrt (dx * dx + dy * dy))"

subsection \<open>animatePeople: movement\<close>

text \<open>
  The callback of \<open>prevPeople.map\<close>. An agent whose progress reaches 1 gets a new destination
  (two draws) and is returned at once, before the line that counts infected agents; any
  other agent is moved and, when infected, counted. The result is the new agent, the draw
  counter and whether \<open>infectedCount++\<close> ran.
\<close>

definition movePerson :: "(nat \<Rightarrow> real) \<Rightarrow> int \<Rightarrow> person \<Rightarrow> nat \<Rightarrow> person \<times> nat \<times> bool" where
  "movePerson rnd timeDelta person k =
     (let progress' = progress person + speed person * (real_of_int timeDelta / 30)
      in if progress' \<ge> 1
         then (person\<lparr>destination := sample SF_BOUNDS rnd k, progress := 0\<rparr>, k + 2, False)
         else
           (let step = min (speed person * (real_of_int timeDelta / 30)) 0.01;
                newLng = fst (coordinates person)
                         + (fst (destination person) - fst (coordinates person)) * step;
                newLat = snd (coordinates person)
                         + (snd (destination person) - snd (coordinates person)) * step
            in (person\<lparr>coordinates := (newLng, newLat), progress := progress'\<rparr>,
                k, isDestabilized person)))"

text \<open>\<open>prevPeople.map(...)\<close> with \<open>infectedCount\<close> and the draw counter threaded through.\<close>

fun movePeople ::
    "(nat \<Rightarrow> real) \<Rightarrow> int \<Rightarrow> person list \<Rightarrow> nat \<Rightarrow> nat \<Rightarrow> person list \<times> nat \<times> nat" where
  "movePeople rnd timeDelta [] k infectedCount = ([], k, infectedCount)"
| "movePeople rnd timeDelta (p # ps) k infectedCount =
     (case movePerson rnd timeDelta p k of
        (p', k', counted) \<Rightarrow>
          (case movePeople rnd timeDelta ps k'
                  (if counted then infectedCount + 1 else infectedCount) of
             (ps', k'', infectedCount') \<Rightarrow> (p' # ps', k'', infectedCount')))"

subsection \<open>animatePeople: proximity detection\<close>

text \<open>
  The body of the inner \<open>forEach\<close> for one \<open>otherPerson\<close>: the agent after the body and the
  edges it pushed onto \<open>newConnections\<close>. (\<open>newlyInfected\<close> is pushed to and never read.)
\<close>

definition infectOther :: "int \<Rightarrow> jsnum \<Rightarrow> person \<Rightarrow> person \<Rightarrow> person \<times> connection list" where
  "infectOther now radius person otherPerson =
     (if \<not> isDestabilized otherPerson
         \<and> js_lt (Num (calculateDistance (coordinates person) (coordinates otherPerson))) radius
      then (otherPerson\<lparr>isDestabilized := True, infectionTime := Some now,
                        color := RGB 255 50 50\<rparr>,
            [\<lparr>cid = (pid person, pid otherPerson),
              source = coordinates person,
              target = coordinates otherPerson,
              timestamp = now\<rparr>])
      else (otherPerson, []))"

text \<open>
  The inner \<open>forEach\<close>. It writes to agents that are not infected and reads only the id and
  the coordinates of \<open>person\<close>, who is infected, so \<open>person\<close> is the same object throughout.
\<close>

definition innerLoop ::
    "int \<Rightarrow> jsnum \<Rightarrow> person \<Rightarrow> person list \<Rightarrow> person list \<times> connection list" where
  "innerLoop now radius person arr =
     (map (\<lambda>otherPerson. fst (infectOther now radius person otherPerson)) arr,
      concat (map (\<lambda>otherPerson. snd (infectOther now radius person otherPerson)) arr))"

text \<open>
  One round of the outer \<open>forEach\<close>, at index \<open>i\<close>. The agents are objects of the one array
  \<open>updatedPeople\<close> and the inner loop has written to them in place, so \<open>person\<close> is read from
  the array as the earlier rounds have left it.
\<close>

definition outerStep ::
    "int \<Rightarrow> jsnum \<Rightarrow> nat \<Rightarrow> person list \<times> connection list \<Rightarrow> person list \<times> connection list" where
  "outerStep now radius i acc =
     (let arr = fst acc; newConnections = snd acc; person = arr ! i
      in if isDestabilized person
         then (case innerLoop now radius person arr of
                 (arr', new) \<Rightarrow> (arr', newConnections @ new))
         else (arr, newConnections))"

definition infectPass ::
    "int \<Rightarrow> jsnum \<Rightarrow> person list \<Rightarrow> person list \<times> connection list" where
  "infectPass now radius updatedPeople =
     fold (outerStep now radius) [0..<length updatedPeople] (updatedPeople, [])"

subsection \<open>animatePeople: colour\<close>

text \<open>The test \<open>person.infectionTime\<close> is false for \<open>null\<close> and for the number 0.\<close>

definition fadeColor :: "int \<Rightarrow> person \<Rightarrow> person" where
  "fadeColor now person =
     (case infectionTime person of
        None \<Rightarrow> person
      | Some t \<Rightarrow>
          if isDestabilized person \<and> t \<noteq> 0
          then (let timeSinceInfection = now - t
                in if timeSinceInfection > 10000
                   then person\<lparr>color := RGB 180 0 120\<rparr>
                   else (let ratio = min (real_of_int timeSinceInfection / 10000) 1
                         in person\<lparr>color := RGB \<lfloor>255 - 75 * ratio\<rfloor> \<lfloor>0 + 0 * ratio\<rfloor>
                                                   \<lfloor>50 + 70 * ratio\<rfloor>\<rparr>))
          else person)"

subsection \<open>animatePeople: one frame\<close>

text \<open>\<open>Math.max(...infectionHistory.map(h => h.infected))\<close>, or 0 for an empty history.\<close>

definition currentMaxInfected :: "hpoint list \<Rightarrow> nat" where
  "currentMaxInfected h = (if length h > 0 then Max (set (map infected h)) else 0)"

text \<open>
  One run of the frame callback at clock reading \<open>now\<close>: the \<open>setPeople\<close> updater (movement,
  detection, colour, statistics, history point), then the \<open>setConnections\<close> updater. The
  history that \<open>currentMaxInfected\<close> is taken from is the captured one.
\<close>

definition animatePeople :: "(nat \<Rightarrow> real) \<Rightarrow> int \<Rightarrow> state \<Rightarrow> state" where
  "animatePeople rnd now s =
     (let timeDelta = now - lastUpdateTime s
      in case movePeople rnd timeDelta (people s) (seed s) 0 of
           (moved, k', infectedCount) \<Rightarrow>
             (case infectPass now (infectionRadius s) moved of
                (touched, newConnections) \<Rightarrow>
                  (let updatedPeople = map (fadeColor now) touched;
                       finalInfectedCount =
                         max infectedCount (currentMaxInfected (capturedHistory s));
                       rate = ratePercent finalInfectedCount (length updatedPeople);
                       maxStats' =
                         \<lparr>totalAgents = None,
                          infectedAgents = max (infectedAgents (maxStats s)) finalInfectedCount,
                          infectionRate = js_max (infectionRate (maxStats s)) rate\<rparr>;
                       timeElapsed = real_of_int (now - startTime s) / 1000
                   in s\<lparr>people := updatedPeople,
                        statistics := maxStats',
                        lastUpdateTime := now,
                        connections :=
                          filter (\<lambda>conn. now - timestamp conn < 2000)
                            (connections s @ newConnections),
                        infectionHistory :=
                          infectionHistory s
                          @ [\<lparr>time = toFixed1 timeElapsed, infected = finalInfectedCount\<rparr>],
                        currentTime := timeElapsed,
                        maxStats := maxStats',
                        seed := k'\<rparr>)))"

subsection \<open>Handlers and effects\<close>

text \<open>
  The first render: the \<open>useState\<close> and \<open>useRef\<close> initial values. \<open>t_last\<close> and \<open>t_start\<close> are
  the clock readings that initialise \<open>lastUpdateTimeRef\<close> and \<open>startTimeRef\<close>.
\<close>

definition initialState :: "int \<Rightarrow> int \<Rightarrow> state" where
  "initialState t_last t_start =
     \<lparr>people = [],
      simulationActive = False,
      infectionRadius = Num 0.003,
      statistics = \<lparr>totalAgents = Some 0, infectedAgents = 0, infectionRate = Num 0\<rparr>,
      lastUpdateTime = t_last,
      connections = [],
      infectionHistory = [],
      currentTime = 0,
      startTime = t_start,
      maxStats = \<lparr>totalAgents = None, infectedAgents = 1, infectionRate = Num 0.5\<rparr>,
      seed = 0,
      capturedHistory = []\<rparr>"

text \<open>
  The mount effect (\<open>useEffect(..., [])\<close>). An exception thrown by \<open>generatePeople\<close> leaves
  the state as it was.
\<close>

definition mountEffect :: "(nat \<Rightarrow> real) \<Rightarrow> int \<Rightarrow> state \<Rightarrow> error + state" where
  "mountEffect rnd now s =
     (case generatePeople rnd (seed s) now 200 SF_BOUNDS of
        Inl e \<Rightarrow> Inl e
      | Inr (initialPeople, k') \<Rightarrow>
          Inr (s\<lparr>people := initialPeople,
                 statistics :=
                   \<lparr>totalAgents = Some (length initialPeople), infectedAgents = 1,
                    infectionRate = ratePercent 1 (length initialPeople)\<rparr>,
                 infectionHistory := [\<lparr>time = 0, infected = 1\<rparr>],
                 currentTime := 0,
                 seed := k'\<rparr>))"

text \<open>
  \<open>handleReset\<close>; \<open>now\<close> is the clock reading inside \<open>generatePeople\<close> and \<open>now'\<close> the later
  one stored in \<open>startTimeRef\<close>. Neither \<open>lastUpdateTimeRef\<close> nor the history captured by a
  running effect is touched.
\<close>

definition handleReset :: "(nat \<Rightarrow> real) \<Rightarrow> int \<Rightarrow> int \<Rightarrow> state \<Rightarrow> error + state" where
  "handleReset rnd now now' s =
     (case generatePeople rnd (seed s) now 200 SF_BOUNDS of
        Inl e \<Rightarrow> Inl e
      | Inr (initialPeople, k') \<Rightarrow>
          Inr (s\<lparr>people := initialPeople,
                 connections := [],
                 maxStats := \<lparr>totalAgents = None, infectedAgents = 1, infectionRate = Num 0.5\<rparr>,
                 statistics :=
                   \<lparr>totalAgents = Some (length initialPeople), infectedAgents = 1,
                    infectionRate = ratePercent 1 (length initialPeople)\<rparr>,
                 infectionHistory := [\<lparr>time = 0, infected = 1\<rparr>],
                 currentTime := 0,
                 startTime := now',
                 seed := k'\<rparr>))"

text \<open>
  \<open>handleRadiusChange\<close>, applied to the value \<open>parseFloat(e.target.value)\<close>. A changed radius
  re-runs the animation effect, which then closes over the current history.
\<close>

definition handleRadiusChange :: "jsnum \<Rightarrow> state \<Rightarrow> state" where
  "handleRadiusChange v s =
     s\<lparr>infectionRadius := v,
       capturedHistory :=
         (if simulationActive s \<and> v \<noteq> infectionRadius s then infectionHistory s
          else capturedHistory s)\<rparr>"

text \<open>
  The Pause/Resume button, \<open>setSimulationActive(!simulationActive)\<close>. On resume the
  animation effect runs again and closes over the current history; it reads no clock, so
  \<open>lastUpdateTimeRef\<close> keeps the time of the last frame before the pause.
\<close>

definition toggleSimulation :: "state \<Rightarrow> state" where
  "toggleSimulation s =
     s\<lparr>simulationActive := \<not> simulationActive s,
       capturedHistory :=
         (if \<not> simulationActive s then infectionHistory s else capturedHistory s)\<rparr>"

subsection \<open>Runs\<close>

text \<open>
  What can happen to a mounted page: an animation frame (which runs the callback only
  while the simulation is active), a click on Pause/Resume, a radius change, a reset.
\<close>

datatype event = Frame int | Toggle | RadiusChange jsnum | Reset int int

fun step :: "(nat \<Rightarrow> real) \<Rightarrow> state \<Rightarrow> event \<Rightarrow> state" where
  "step rnd s (Frame now) = (if simulationActive s then animatePeople rnd now s else s)"
| "step rnd s Toggle = toggleSimulation s"
| "step rnd s (RadiusChange v) = handleRadiusChange v s"
| "step rnd s (Reset now now') =
     (case handleReset rnd now now' s of Inl e \<Rightarrow> s | Inr s' \<Rightarrow> s')"

text \<open>The states a list of events leads through, the starting state first.\<close>

fun trace :: "(nat \<Rightarrow> real) \<Rightarrow> state \<Rightarrow> event list \<Rightarrow> state list" where
  "trace rnd s [] = [s]"
| "trace rnd s (e # es) = s # trace rnd (step rnd s e) es"

definition exec :: "(nat \<Rightarrow> real) \<Rightarrow> state \<Rightarrow> event list \<Rightarrow> state" where
  "exec rnd s es = foldl (step rnd) s es"

subsection \<open>Names for the intermediate values of a frame\<close>

text \<open>\<open>updatedPeople\<close> as the \<open>map\<close> returns it, before the detection pass.\<close>

definition frameMoved :: "(nat \<Rightarrow> real) \<Rightarrow> int \<Rightarrow> state \<Rightarrow> person list" where
  "frameMoved rnd now s =
     fst (movePeople rnd (now - lastUpdateTime s) (people s) (seed s) 0)"

text \<open>\<open>newConnections\<close> as the detection pass leaves it.\<close>

definition frameNewConnections :: "(nat \<Rightarrow> real) \<Rightarrow> int \<Rightarrow> state \<Rightarrow> connection list" where
  "frameNewConnections rnd now s =
     snd (infectPass now (infectionRadius s) (frameMoved rnd now s))"

text \<open>\<open>infectedCount\<close> after the movement pass, and \<open>finalInfectedCount\<close>.\<close>

definition frameInfectedCount :: "(nat \<Rightarrow> real) \<Rightarrow> int \<Rightarrow> state \<Rightarrow> nat" where
  "frameInfectedCount rnd now s =
     snd (snd (movePeople rnd (now - lastUpdateTime s) (people s) (seed s) 0))"

definition frameFinalCount :: "(nat \<Rightarrow> real) \<Rightarrow> int \<Rightarrow> state \<Rightarrow> nat" where
  "frameFinalCount rnd now s =
     max (frameInfectedCount rnd now s) (currentMaxInfected (capturedHistory s))"

subsection \<open>Notions used to state the properties\<close>

text \<open>The test \<open>progress >= 1\<close> of the movement callback, for an elapsed time.\<close>

definition arrives :: "int \<Rightarrow> person \<Rightarrow> bool" where
  "arrives timeDelta person \<longleftrightarrow>
     progress person + speed person * (real_of_int timeDelta / 30) \<ge> 1"

definition inBounds :: "bounds \<Rightarrow> real \<times> real \<Rightarrow> bool" where
  "inBounds b pt \<longleftrightarrow>
     lng_min b \<le> fst pt \<and> fst pt \<le> lng_max b \<and> lat_min b \<le> snd pt \<and> snd pt \<le> lat_max b"

text \<open>The two nested conditions of the inner loop, and the edge it pushes.\<close>

definition catches :: "jsnum \<Rightarrow> person \<Rightarrow> person \<Rightarrow> bool" where
  "catches radius person otherPerson \<longleftrightarrow>
     \<not> isDestabilized otherPerson \<and>
     js_lt (Num (calculateDistance (coordinates person) (coordinates otherPerson))) radius"

definition edgeOf :: "int \<Rightarrow> person \<Rightarrow> person \<Rightarrow> connection" where
  "edgeOf now person otherPerson =
     \<lparr>cid = (pid person, pid otherPerson), source = coordinates person,
      target = coordinates otherPerson, timestamp = now\<rparr>"

text \<open>
  What the detection pass at time \<open>now\<close> can have done to an agent \<open>q0\<close>: nothing, or the three
  assignments of the inner loop, once.
\<close>

definition evolves :: "int \<Rightarrow> person \<Rightarrow> person \<Rightarrow> bool" where
  "evolves now q0 q \<longleftrightarrow>
     q = q0 \<or>
     (\<not> isDestabilized q0 \<and>
      q = q0\<lparr>isDestabilized := True, infectionTime := Some now, color := RGB 255 50 50\<rparr>)"

text \<open>The edges whose target has id \<open>i\<close>.\<close>

definition targeting :: "nat \<Rightarrow> connection list \<Rightarrow> connection list" where
  "targeting i conns = filter (\<lambda>c. snd (cid c) = i) conns"

text \<open>
  Invariants of the outer loop, relating the array \<open>arr0\<close> the pass started from to the
  array and edge list reached: where the edges come from, how many edges target an agent,
  and how the sources of the edges are chained.
\<close>

definition edges_from :: "int \<Rightarrow> jsnum \<Rightarrow> person list \<Rightarrow> connection list \<Rightarrow> bool" where
  "edges_from now r arr0 conns \<longleftrightarrow>
     (\<forall>c \<in> set conns. \<exists>k < length arr0. \<exists>j < length arr0.
        c = edgeOf now (arr0 ! k) (arr0 ! j) \<and> \<not> isDestabilized (arr0 ! j) \<and>
        js_lt (Num (calculateDistance (coordinates (arr0 ! k)) (coordinates (arr0 ! j)))) r)"

definition counted :: "int \<Rightarrow> person list \<Rightarrow> person list \<times> connection list \<Rightarrow> bool" where
  "counted now arr0 acc \<longleftrightarrow>
     list_all2 (evolves now) arr0 (fst acc) \<and>
     (\<forall>j < length arr0.
        length (targeting (pid (arr0 ! j)) (snd acc)) =
          (if isDestabilized (fst acc ! j) \<and> \<not> isDestabilized (arr0 ! j) then 1 else 0))"

definition chained :: "int \<Rightarrow> person list \<Rightarrow> person list \<times> connection list \<Rightarrow> bool" where
  "chained now arr0 acc \<longleftrightarrow>
     list_all2 (evolves now) arr0 (fst acc) \<and>
     (\<forall>j < length arr0. isDestabilized (fst acc ! j) \<and> \<not> isDestabilized (arr0 ! j) \<longrightarrow>
        (\<exists>m < length (snd acc). snd (cid (snd acc ! m)) = pid (arr0 ! j))) \<and>
     (\<forall>m < length (snd acc).
        (\<exists>k < length arr0. isDestabilized (arr0 ! k) \<and> pid (arr0 ! k) = fst (cid (snd acc ! m))) \<or>
        (\<exists>m' < m. snd (cid (snd acc ! m')) = fst (cid (snd acc ! m))))"

text \<open>Up to a round \<open>m\<close> of the outer loop, the edges come from agents at indices below \<open>m\<close>.\<close>

definition sources_below ::
    "nat \<Rightarrow> int \<Rightarrow> person list \<Rightarrow> person list \<times> connection list \<Rightarrow> bool" where
  "sources_below m now arr0 acc \<longleftrightarrow>
     list_all2 (evolves now) arr0 (fst acc) \<and>
     (\<forall>c \<in> set (snd acc). \<exists>k < m. fst (cid c) = pid (arr0 ! k))"



text \<open>
  The page after its mount effect; an exception there would leave the first render's state.
\<close>

definition mounted :: "(nat \<Rightarrow> real) \<Rightarrow> int \<Rightarrow> int \<Rightarrow> int \<Rightarrow> state" where
  "mounted rnd t_last t_start now =
     (case mountEffect rnd now (initialState t_last t_start) of
        Inl e \<Rightarrow> initialState t_last t_start
      | Inr s \<Rightarrow> s)"


text \<open>
  The order on statistics (count and rate both compared as JavaScript compares numbers),
  the invariant behind their monotonicity (a non-empty pool, finite rates, the displayed
  state not ahead of the running maxima), and the events that start a new run.
\<close>

definition stats_le :: "stats \<Rightarrow> stats \<Rightarrow> bool" where
  "stats_le x y \<longleftrightarrow>
     infectedAgents x \<le> infectedAgents y \<and> js_ge (infectionRate y) (infectionRate x)"

definition stats_inv :: "state \<Rightarrow> bool" where
  "stats_inv s \<longleftrightarrow>
     people s \<noteq> [] \<and>
     (\<exists>a b. infectionRate (statistics s) = Num a \<and> infectionRate (maxStats s) = Num b \<and> a \<le> b) \<and>
     infectedAgents (statistics s) \<le> infectedAgents (maxStats s)"

fun isReset :: "event \<Rightarrow> bool" where
  "isReset (Reset now now') = True"
| "isReset _ = False"

subsection \<open>Example inputs\<close>

text \<open>
  An agent standing at \<open>pos\<close> with its destination at the same point (infected at time 1000
  when \<open>sick\<close>), an edge between two points at the centre of the region, and the page as it
  is once mounted over a given pool, resumed and run up to a last frame at time 1000, with a
  given ledger.
\<close>

definition agentAt :: "nat \<Rightarrow> real \<times> real \<Rightarrow> bool \<Rightarrow> person" where
  "agentAt i pos sick =
     \<lparr>pid = i, coordinates = pos, destination = pos,
      color = (if sick then RGB 255 50 50 else RGB 0 100 0), progress = 0,
      isDestabilized = sick, infectionTime = (if sick then Some 1000 else None),
      speed = 0.003\<rparr>"

definition edgeAt :: "nat \<times> nat \<Rightarrow> int \<Rightarrow> connection" where
  "edgeAt ij t =
     \<lparr>cid = ij, source = (- 122.45, 37.75), target = (- 122.45, 37.75), timestamp = t\<rparr>"

definition running :: "person list \<Rightarrow> connection list \<Rightarrow> state" where
  "running ps cs =
     (initialState 1000 1000)
       \<lparr>people := ps, simulationActive := True,
        statistics := \<lparr>totalAgents = Some (length ps), infectedAgents = 1,
                       infectionRate = ratePercent 1 (length ps)\<rparr>,
        connections := cs,
        infectionHistory := [\<lparr>time = 0, infected = 1\<rparr>],
        seed := 8 * length ps,
        capturedHistory := [\<lparr>time = 0, infected = 1\<rparr>]\<rparr>"

text \<open>
  Three agents on a parallel, 0.002 degrees apart, the first one infected; and two infected
  agents with a susceptible one between them. The default radius is 0.003.
\<close>

definition chainOfThree :: state where
  "chainOfThree =
     running [agentAt 0 (- 122.45, 37.75) True, agentAt 1 (- 122.448, 37.75) False,
              agentAt 2 (- 122.446, 37.75) False] []"

definition twoSources :: state where
  "twoSources =
     running [agentAt 0 (- 122.45, 37.75) True, agentAt 1 (- 122.449, 37.75) True,
              agentAt 2 (- 122.4495, 37.75) False] []"

text \<open>
  An infected agent at the south-west of the region, on its way to a point 0.1 degrees
  further north-east, alone in a running simulation.
\<close>

definition walker :: "nat \<Rightarrow> person" where
  "walker i =
     \<lparr>pid = i, coordinates = (- 122.5, 37.7), destination = (- 122.4, 37.8),
      color = RGB 255 50 50, progress = 0, isDestabilized = True, infectionTime = Some 1000,
      speed = 0.003\<rparr>"

definition strolling :: state where
  "strolling = running [walker 0] []"

text \<open>
  A pool whose agents all stand at the centre of the region with their destination there,
  with speed 0.003 and the same progress: what \<open>generatePeople\<close> builds from draws that are
  all one half, and what frames without an arrival make of it.
\<close>

definition huddled :: "real \<Rightarrow> person list \<Rightarrow> bool" where
  "huddled prog ps \<longleftrightarrow>
     (\<forall>p \<in> set ps. coordinates p = (- 122.45, 37.75) \<and> destination p = (- 122.45, 37.75) \<and>
        speed p = 0.003 \<and> progress p = prog)"

text \<open>A random source whose every draw is one half.\<close>

definition steady :: "nat \<Rightarrow> real" where
  "steady n = 1 / 2"

section \<open>Properties\<close>

subsection \<open>The fields of the state after a frame\<close>

lemma connections_animatePeople:
  "connections (animatePeople rnd now s) =
     filter (\<lambda>conn. now - timestamp conn < 2000)
       (connections s @ frameNewConnections rnd now s)"
  by (simp add: animatePeople_def frameNewConnections_def frameMoved_def Let_def
      split: prod.splits)

lemma people_animatePeople:
  "people (animatePeople rnd now s) =
     map (fadeColor now) (fst (infectPass now (infectionRadius s) (frameMoved rnd now s)))"
  by (simp add: animatePeople_def frameMoved_def Let_def split: prod.splits)

subsection \<open>The detection pass, round by round\<close>

lemma fst_outerStep:
  "fst (outerStep now r i acc) =
     (if isDestabilized (fst acc ! i) then fst (innerLoop now r (fst acc ! i) (fst acc))
      else fst acc)"
  by (simp add: outerStep_def Let_def split: prod.splits)

lemma snd_outerStep:
  "snd (outerStep now r i acc) =
     (if isDestabilized (fst acc ! i)
      then snd acc @ snd (innerLoop now r (fst acc ! i) (fst acc))
      else snd acc)"
  by (simp add: outerStep_def Let_def split: prod.splits)

lemma timestamp_infectOther:
  "c \<in> set (snd (infectOther now r p q)) \<Longrightarrow> timestamp c = now"
  by (auto simp: infectOther_def split: if_splits)

lemma timestamp_innerLoop:
  "c \<in> set (snd (innerLoop now r p arr)) \<Longrightarrow> timestamp c = now"
  by (auto simp: innerLoop_def dest: timestamp_infectOther)

lemma timestamp_outerStep:
  "\<forall>c \<in> set (snd acc). timestamp c = now \<Longrightarrow>
   \<forall>c \<in> set (snd (outerStep now r i acc)). timestamp c = now"
  by (auto simp: snd_outerStep dest: timestamp_innerLoop)

lemma timestamp_fold:
  "\<forall>c \<in> set (snd acc). timestamp c = now \<Longrightarrow>
   \<forall>c \<in> set (snd (fold (outerStep now r) js acc)). timestamp c = now"
proof (induction js arbitrary: acc)
  case Nil
  then show ?case by simp
next
  case (Cons j js)
  show ?case using Cons.IH[OF timestamp_outerStep[OF Cons.prems]] by simp
qed

lemma timestamp_infectPass:
  "c \<in> set (snd (infectPass now r arr)) \<Longrightarrow> timestamp c = now"
  using timestamp_fold[of "(arr, [])" now r "[0..<length arr]"]
  by (simp add: infectPass_def)

lemma infectOther_alt:
  "infectOther now r p q =
     (if catches r p q
      then (q\<lparr>isDestabilized := True, infectionTime := Some now, color := RGB 255 50 50\<rparr>,
            [edgeOf now p q])
      else (q, []))"
  by (simp add: infectOther_def catches_def edgeOf_def)

lemma length_innerLoop [simp]: "length (fst (innerLoop now r p arr)) = length arr"
  by (simp add: innerLoop_def)

lemma nth_innerLoop:
  "j < length arr \<Longrightarrow> fst (innerLoop now r p arr) ! j = fst (infectOther now r p (arr ! j))"
  by (simp add: innerLoop_def)

lemma snd_innerLoop:
  "snd (innerLoop now r p arr) = map (edgeOf now p) (filter (catches r p) arr)"
  by (induction arr) (simp_all add: innerLoop_def infectOther_alt)

lemma fold_invariant:
  assumes "P acc" and "\<And>x a. x \<in> set xs \<Longrightarrow> P a \<Longrightarrow> P (f x a)"
  shows "P (fold f xs acc)"
  using assms by (induction xs arbitrary: acc) auto

lemma evolves_refl [simp]: "evolves now q q"
  by (simp add: evolves_def)

lemma evolves_infectOther:
  "evolves now q0 q \<Longrightarrow> evolves now q0 (fst (infectOther now r p q))"
  by (auto simp: evolves_def infectOther_alt catches_def)

lemma evolves_innerLoop:
  "list_all2 (evolves now) arr0 arr \<Longrightarrow>
   list_all2 (evolves now) arr0 (fst (innerLoop now r p arr))"
  by (simp add: innerLoop_def list_all2_map2 list_all2_mono evolves_infectOther)

lemma evolves_outerStep:
  "list_all2 (evolves now) arr0 (fst acc) \<Longrightarrow>
   list_all2 (evolves now) arr0 (fst (outerStep now r i acc))"
  by (simp add: fst_outerStep evolves_innerLoop)

lemma evolves_fold:
  "list_all2 (evolves now) arr0 (fst acc) \<Longrightarrow>
   list_all2 (evolves now) arr0 (fst (fold (outerStep now r) js acc))"
  by (rule fold_invariant) (simp_all add: evolves_outerStep)

lemma evolves_infectPass:
  "list_all2 (evolves now) arr (fst (infectPass now r arr))"
  unfolding infectPass_def by (rule evolves_fold) (simp add: list_all2_same)

lemma length_infectPass [simp]: "length (fst (infectPass now r arr)) = length arr"
  using evolves_infectPass[of now arr r] by (simp add: list_all2_lengthD)

lemma evolves_nth_infectPass:
  "j < length arr \<Longrightarrow> evolves now (arr ! j) (fst (infectPass now r arr) ! j)"
  using evolves_infectPass[of now arr r] by (simp add: list_all2_nthD)

lemma evolves_fields:
  assumes "evolves now q0 q"
  shows "pid q = pid q0" "coordinates q = coordinates q0" "destination q = destination q0"
    "progress q = progress q0" "speed q = speed q0"
    "isDestabilized q0 \<Longrightarrow> q = q0"
    "\<not> isDestabilized q \<Longrightarrow> q = q0"
    "isDestabilized q \<Longrightarrow> \<not> isDestabilized q0 \<Longrightarrow> infectionTime q = Some now"
  using assms by (auto simp: evolves_def)


lemma infected_after_round:
  assumes "i < length cur" "j < length cur" "isDestabilized (cur ! i)"
    and "js_lt (Num (calculateDistance (coordinates (cur ! i)) (coordinates (cur ! j)))) r"
  shows "isDestabilized (fst (outerStep now r i (cur, conns)) ! j)"
  using assms by (simp add: fst_outerStep nth_innerLoop infectOther_alt catches_def)

lemma sick_stays_fold:
  assumes "j < length (fst acc)" "isDestabilized (fst acc ! j)"
  shows "isDestabilized (fst (fold (outerStep now r) js acc) ! j)"
proof -
  have "list_all2 (evolves now) (fst acc) (fst (fold (outerStep now r) js acc))"
    by (rule evolves_fold) (simp add: list_all2_same)
  then have "evolves now (fst acc ! j) (fst (fold (outerStep now r) js acc) ! j)"
    using assms(1) by (simp add: list_all2_nthD)
  then show ?thesis using assms(2) by (auto simp: evolves_def)
qed

lemma infectPass_infects:
  assumes i: "i < length arr" and j: "j < length arr" and sick: "isDestabilized (arr ! i)"
    and near: "js_lt (Num (calculateDistance (coordinates (arr ! i)) (coordinates (arr ! j)))) r"
  shows "isDestabilized (fst (infectPass now r arr) ! j)"
proof -
  define acc where "acc = fold (outerStep now r) [0..<i] (arr, [])"
  have ev: "list_all2 (evolves now) arr (fst acc)"
    unfolding acc_def by (rule evolves_fold) (simp add: list_all2_same)
  then have len: "length (fst acc) = length arr" by (simp add: list_all2_lengthD)
  have ei: "evolves now (arr ! i) (fst acc ! i)" and ej: "evolves now (arr ! j) (fst acc ! j)"
    using ev i j by (simp_all add: list_all2_nthD)
  have "isDestabilized (fst (outerStep now r i (fst acc, snd acc)) ! j)"
    using i j sick near len evolves_fields(6)[OF ei] evolves_fields(2)[OF ej]
    by (intro infected_after_round) simp_all
  then have round: "isDestabilized (fst (outerStep now r i acc) ! j)" by simp
  have split: "[0..<length arr] = [0..<i] @ i # [Suc i..<length arr]"
  proof -
    have "[0..<i + (length arr - i)] = [0..<i] @ [i..<i + (length arr - i)]"
      by (rule upt_add_eq_append) simp
    then show ?thesis using i by (simp add: upt_conv_Cons)
  qed
  have "length (fst (outerStep now r i acc)) = length arr"
    using len by (simp add: fst_outerStep)
  then show ?thesis
    unfolding infectPass_def split using round j
    by (simp add: acc_def[symmetric] sick_stays_fold)
qed


lemma snd_outerStep_edges:
  "snd (outerStep now r i acc) =
     (if isDestabilized (fst acc ! i)
      then snd acc @ map (edgeOf now (fst acc ! i)) (filter (catches r (fst acc ! i)) (fst acc))
      else snd acc)"
  by (simp add: snd_outerStep snd_innerLoop)

lemma edgeOf_evolves:
  "evolves now p0 p \<Longrightarrow> evolves now q0 q \<Longrightarrow> edgeOf now p q = edgeOf now p0 q0"
  by (auto simp: evolves_def edgeOf_def)

lemma edges_from_outerStep:
  assumes ev: "list_all2 (evolves now) arr0 (fst acc)" and ed: "edges_from now r arr0 (snd acc)"
    and i: "i < length arr0"
  shows "edges_from now r arr0 (snd (outerStep now r i acc))"
proof (cases "isDestabilized (fst acc ! i)")
  case False
  then show ?thesis using ed by (simp add: snd_outerStep_edges)
next
  case True
  have len: "length (fst acc) = length arr0" using ev by (simp add: list_all2_lengthD)
  have ei: "evolves now (arr0 ! i) (fst acc ! i)" using ev i by (simp add: list_all2_nthD)
  have new: "\<exists>k < length arr0. \<exists>j < length arr0.
        c = edgeOf now (arr0 ! k) (arr0 ! j) \<and> \<not> isDestabilized (arr0 ! j) \<and>
        js_lt (Num (calculateDistance (coordinates (arr0 ! k)) (coordinates (arr0 ! j)))) r"
    if c: "c \<in> set (map (edgeOf now (fst acc ! i)) (filter (catches r (fst acc ! i)) (fst acc)))"
    for c
  proof -
    from c obtain q where q: "q \<in> set (fst acc)" "catches r (fst acc ! i) q"
      and cq: "c = edgeOf now (fst acc ! i) q" by auto
    from q(1) obtain j where j: "j < length arr0" "q = fst acc ! j"
      using len by (auto simp: in_set_conv_nth)
    have ej: "evolves now (arr0 ! j) q" using ev j by (simp add: list_all2_nthD)
    have qq: "q = arr0 ! j" using q(2) evolves_fields(7)[OF ej] by (simp add: catches_def)
    have "c = edgeOf now (arr0 ! i) (arr0 ! j)"
      using cq edgeOf_evolves[OF ei ej] by simp
    moreover have "\<not> isDestabilized (arr0 ! j)" using q(2) qq by (simp add: catches_def)
    moreover have
      "js_lt (Num (calculateDistance (coordinates (arr0 ! i)) (coordinates (arr0 ! j)))) r"
      using q(2) qq evolves_fields(2)[OF ei] by (simp add: catches_def)
    ultimately show ?thesis using i j(1) by blast
  qed
  show ?thesis
    unfolding edges_from_def
  proof
    fix c assume "c \<in> set (snd (outerStep now r i acc))"
    then consider "c \<in> set (snd acc)"
      | "c \<in> set (map (edgeOf now (fst acc ! i)) (filter (catches r (fst acc ! i)) (fst acc)))"
      using True by (auto simp: snd_outerStep_edges)
    then show "\<exists>k < length arr0. \<exists>j < length arr0.
        c = edgeOf now (arr0 ! k) (arr0 ! j) \<and> \<not> isDestabilized (arr0 ! j) \<and>
        js_lt (Num (calculateDistance (coordinates (arr0 ! k)) (coordinates (arr0 ! j)))) r"
    proof cases
      case 1 then show ?thesis using ed by (simp add: edges_from_def)
    next
      case 2 then show ?thesis by (rule new)
    qed
  qed
qed

lemma edges_from_infectPass: "edges_from now r arr (snd (infectPass now r arr))"
proof -
  have "list_all2 (evolves now) arr (fst (fold (outerStep now r) [0..<length arr] (arr, [])))
      \<and> edges_from now r arr (snd (fold (outerStep now r) [0..<length arr] (arr, [])))"
    by (rule fold_invariant)
      (simp_all add: list_all2_same edges_from_def[of _ _ _ "[]"] evolves_outerStep
        edges_from_outerStep)
  then show ?thesis by (simp add: infectPass_def)
qed


lemma count_one:
  assumes d: "distinct (map f xs)" and j: "j < length xs"
  shows "length (filter (\<lambda>q. Q q \<and> f q = f (xs ! j)) xs) = (if Q (xs ! j) then 1 else 0)"
proof -
  have eq: "f (xs ! i) = f (xs ! j) \<longleftrightarrow> i = j" if "i < length xs" for i
    using nth_eq_iff_index_eq[OF d, of i j] that j by simp
  have "{i. i < length xs \<and> Q (xs ! i) \<and> f (xs ! i) = f (xs ! j)} =
        (if Q (xs ! j) then {j} else {})"
    using eq j by auto
  then show ?thesis by (simp add: length_filter_conv_card)
qed

lemma map_pid_evolves:
  "list_all2 (evolves now) arr0 cur \<Longrightarrow> map pid cur = map pid arr0"
  by (induction arr0 cur rule: list_all2_induct) (simp_all add: evolves_fields(1))

lemma targeting_new:
  "targeting x (map (edgeOf now p) qs) = map (edgeOf now p) (filter (\<lambda>q. pid q = x) qs)"
  by (induction qs) (simp_all add: targeting_def edgeOf_def)

lemma counted_outerStep:
  assumes inv: "counted now arr0 acc" and d: "distinct (map pid arr0)"
  shows "counted now arr0 (outerStep now r i acc)"
proof (cases "isDestabilized (fst acc ! i)")
  case False
  then have "outerStep now r i acc = acc"
    by (simp add: prod_eq_iff fst_outerStep snd_outerStep)
  then show ?thesis using inv by simp
next
  case True
  define p where "p = fst acc ! i"
  have ev: "list_all2 (evolves now) arr0 (fst acc)" using inv by (simp add: counted_def)
  have len: "length (fst acc) = length arr0" using ev by (simp add: list_all2_lengthD)
  have pids: "map pid (fst acc) = map pid arr0" by (rule map_pid_evolves[OF ev])
  have dcur: "distinct (map pid (fst acc))" using d pids by simp
  have step: "length (targeting (pid (arr0 ! j)) (snd (outerStep now r i acc))) =
          (if isDestabilized (fst (outerStep now r i acc) ! j) \<and> \<not> isDestabilized (arr0 ! j)
           then 1 else 0)" if j: "j < length arr0" for j
  proof -
    have ej: "evolves now (arr0 ! j) (fst acc ! j)" using ev j by (simp add: list_all2_nthD)
    have pj: "pid (arr0 ! j) = pid (fst acc ! j)" using evolves_fields(1)[OF ej] by simp
    have old: "length (targeting (pid (arr0 ! j)) (snd acc)) =
          (if isDestabilized (fst acc ! j) \<and> \<not> isDestabilized (arr0 ! j) then 1 else 0)"
      using inv j by (simp add: counted_def)
    have "length (targeting (pid (arr0 ! j)) (map (edgeOf now p) (filter (catches r p) (fst acc))))
        = length (filter (\<lambda>q. catches r p q \<and> pid q = pid (fst acc ! j)) (fst acc))"
      by (simp add: targeting_new pj)
    also have "\<dots> = (if catches r p (fst acc ! j) then 1 else 0)"
      using count_one[OF dcur, of j "catches r p"] j len by simp
    finally have new: "length (targeting (pid (arr0 ! j))
          (map (edgeOf now p) (filter (catches r p) (fst acc)))) =
        (if catches r p (fst acc ! j) then 1 else 0)" .
    have tot: "length (targeting (pid (arr0 ! j)) (snd (outerStep now r i acc))) =
        (if isDestabilized (fst acc ! j) \<and> \<not> isDestabilized (arr0 ! j) then 1 else 0)
        + (if catches r p (fst acc ! j) then 1 else 0)"
      using True old new
      by (simp add: snd_outerStep_edges p_def[symmetric] targeting_def)
    have nxt: "fst (outerStep now r i acc) ! j = fst (infectOther now r p (fst acc ! j))"
      using True j len by (simp add: fst_outerStep nth_innerLoop p_def)
    show ?thesis
    proof (cases "catches r p (fst acc ! j)")
      case c: True
      then have "\<not> isDestabilized (fst acc ! j)" by (simp add: catches_def)
      moreover from this have "\<not> isDestabilized (arr0 ! j)"
        using evolves_fields(7)[OF ej] by simp
      ultimately show ?thesis using c tot nxt by (simp add: infectOther_alt)
    next
      case c: False
      then show ?thesis using tot nxt by (simp add: infectOther_alt)
    qed
  qed
  show ?thesis
    unfolding counted_def using evolves_outerStep[OF ev] step by blast
qed

lemma counted_infectPass:
  "distinct (map pid arr) \<Longrightarrow> counted now arr (infectPass now r arr)"
  unfolding infectPass_def
  by (rule fold_invariant)
    (simp_all add: counted_def[of _ _ "(arr, [])"] targeting_def list_all2_same
      counted_outerStep)


lemma chained_outerStep:
  assumes inv: "chained now arr0 acc" and i: "i < length arr0"
  shows "chained now arr0 (outerStep now r i acc)"
proof (cases "isDestabilized (fst acc ! i)")
  case False
  then have "outerStep now r i acc = acc"
    by (simp add: prod_eq_iff fst_outerStep snd_outerStep)
  then show ?thesis using inv by simp
next
  case True
  define p where "p = fst acc ! i"
  define new where "new = map (edgeOf now p) (filter (catches r p) (fst acc))"
  have ev: "list_all2 (evolves now) arr0 (fst acc)" using inv by (simp add: chained_def)
  have len: "length (fst acc) = length arr0" using ev by (simp add: list_all2_lengthD)
  have conns: "snd (outerStep now r i acc) = snd acc @ new"
    using True by (simp add: snd_outerStep_edges p_def new_def)
  have ei: "evolves now (arr0 ! i) p" using ev i by (simp add: list_all2_nthD p_def)
  have src: "fst (cid c) = pid (arr0 ! i)" if "c \<in> set new" for c
    using that evolves_fields(1)[OF ei] by (auto simp: new_def edgeOf_def)
  have has: "\<exists>m < length (snd acc @ new). snd (cid ((snd acc @ new) ! m)) = pid (arr0 ! j)"
    if j: "j < length arr0" and sick: "isDestabilized (fst (outerStep now r i acc) ! j)"
      and was: "\<not> isDestabilized (arr0 ! j)" for j
  proof (cases "isDestabilized (fst acc ! j)")
    case True
    then obtain m where "m < length (snd acc)" "snd (cid (snd acc ! m)) = pid (arr0 ! j)"
      using inv j was by (auto simp: chained_def)
    then show ?thesis by (intro exI[of _ m]) (simp add: nth_append)
  next
    case False
    have ej: "evolves now (arr0 ! j) (fst acc ! j)" using ev j by (simp add: list_all2_nthD)
    have "fst (outerStep now r i acc) ! j = fst (infectOther now r p (fst acc ! j))"
      using \<open>isDestabilized (fst acc ! i)\<close> j len by (simp add: fst_outerStep nth_innerLoop p_def)
    then have c: "catches r p (fst acc ! j)"
      using sick False by (simp add: infectOther_alt split: if_splits)
    have "fst acc ! j \<in> set (fst acc)" using j len by simp
    then have "edgeOf now p (fst acc ! j) \<in> set new" using c by (simp add: new_def)
    then obtain m where m: "m < length new" "new ! m = edgeOf now p (fst acc ! j)"
      by (auto simp: in_set_conv_nth)
    have "snd (cid (new ! m)) = pid (arr0 ! j)"
      using m(2) evolves_fields(1)[OF ej] by (simp add: edgeOf_def)
    then show ?thesis using m(1)
      by (intro exI[of _ "length (snd acc) + m"]) (simp add: nth_append)
  qed
  have ord: "(\<exists>k < length arr0. isDestabilized (arr0 ! k) \<and>
                pid (arr0 ! k) = fst (cid ((snd acc @ new) ! m))) \<or>
        (\<exists>m' < m. snd (cid ((snd acc @ new) ! m')) = fst (cid ((snd acc @ new) ! m)))"
    if m: "m < length (snd acc @ new)" for m
  proof (cases "m < length (snd acc)")
    case True
    then consider
      (a) "\<exists>k < length arr0. isDestabilized (arr0 ! k) \<and> pid (arr0 ! k) = fst (cid (snd acc ! m))"
      | (b) "\<exists>m' < m. snd (cid (snd acc ! m')) = fst (cid (snd acc ! m))"
      using inv by (auto simp: chained_def)
    then show ?thesis
    proof cases
      case a then show ?thesis using True by (simp add: nth_append)
    next
      case b
      then obtain m' where "m' < m" "snd (cid (snd acc ! m')) = fst (cid (snd acc ! m))" by blast
      then have "m' < m \<and> snd (cid ((snd acc @ new) ! m')) = fst (cid ((snd acc @ new) ! m))"
        using True by (simp add: nth_append)
      then show ?thesis by blast
    qed
  next
    case False
    then have "(snd acc @ new) ! m \<in> set new" using m by (simp add: nth_append)
    then have s: "fst (cid ((snd acc @ new) ! m)) = pid (arr0 ! i)" by (rule src)
    show ?thesis
    proof (cases "isDestabilized (arr0 ! i)")
      case True
      then show ?thesis using s i by auto
    next
      case was: False
      have "isDestabilized (fst acc ! i)" by fact
      then obtain m' where m': "m' < length (snd acc)" "snd (cid (snd acc ! m')) = pid (arr0 ! i)"
        using inv i was by (auto simp: chained_def)
      then have "m' < m \<and> snd (cid ((snd acc @ new) ! m')) = fst (cid ((snd acc @ new) ! m))"
        using False s by (simp add: nth_append)
      then show ?thesis by blast
    qed
  qed
  show ?thesis
    unfolding chained_def conns using evolves_outerStep[OF ev] has ord
    by (simp add: conns[symmetric])
qed

lemma chained_infectPass: "chained now arr (infectPass now r arr)"
  unfolding infectPass_def
  by (rule fold_invariant) (simp_all add: chained_def[of _ _ "(arr, [])"] list_all2_same chained_outerStep)

lemma sources_below_outerStep:
  assumes inv: "sources_below m now arr0 acc" and i: "i < m" "i < length arr0"
  shows "sources_below m now arr0 (outerStep now r i acc)"
proof -
  have ev: "list_all2 (evolves now) arr0 (fst acc)" using inv by (simp add: sources_below_def)
  have ei: "evolves now (arr0 ! i) (fst acc ! i)" using ev i by (simp add: list_all2_nthD)
  have "fst (cid c) = pid (arr0 ! i)"
    if "c \<in> set (map (edgeOf now (fst acc ! i)) (filter (catches r (fst acc ! i)) (fst acc)))"
    for c
    using that evolves_fields(1)[OF ei] by (auto simp: edgeOf_def)
  then show ?thesis
    using inv i(1) evolves_outerStep[OF ev, of r i]
    by (auto simp: sources_below_def snd_outerStep_edges)
qed

lemma edges_appended:
  "\<exists>more. snd (fold (outerStep now r) js acc) = snd acc @ more"
proof (induction js arbitrary: acc)
  case Nil
  then show ?case by simp
next
  case (Cons j js)
  have "\<exists>m1. snd (outerStep now r j acc) = snd acc @ m1"
    by (cases "isDestabilized (fst acc ! j)") (simp_all add: snd_outerStep)
  then obtain m1 where m1: "snd (outerStep now r j acc) = snd acc @ m1" by blast
  obtain m2 where "snd (fold (outerStep now r) js (outerStep now r j acc))
      = snd (outerStep now r j acc) @ m2"
    using Cons.IH by blast
  then show ?case using m1 by simp
qed

lemma first_source:
  assumes i: "i < length arr" and j: "j < length arr" and sick: "isDestabilized (arr ! i)"
    and well: "\<not> isDestabilized (arr ! j)"
    and near: "js_lt (Num (calculateDistance (coordinates (arr ! i)) (coordinates (arr ! j)))) r"
    and ids: "distinct (map pid arr)"
    and c: "c \<in> set (targeting (pid (arr ! j)) (snd (infectPass now r arr)))"
  shows "\<exists>k \<le> i. fst (cid c) = pid (arr ! k)"
proof -
  define acc where "acc = fold (outerStep now r) [0..<Suc i] (arr, [])"
  have split: "[0..<length arr] = [0..<Suc i] @ [Suc i..<length arr]"
  proof -
    have "[0..<Suc i + (length arr - Suc i)] = [0..<Suc i] @ [Suc i..<Suc i + (length arr - Suc i)]"
      by (rule upt_add_eq_append) simp
    moreover have "Suc i + (length arr - Suc i) = length arr" using i by simp
    ultimately show ?thesis by (simp only:)
  qed
  have fin: "infectPass now r arr = fold (outerStep now r) [Suc i..<length arr] acc"
    unfolding infectPass_def acc_def by (subst split) simp
  have below: "sources_below (Suc i) now arr acc"
    unfolding acc_def
  proof (rule fold_invariant)
    show "sources_below (Suc i) now arr (arr, [])"
      by (simp add: sources_below_def list_all2_same)
    show "sources_below (Suc i) now arr (outerStep now r x a)"
      if "x \<in> set [0..<Suc i]" "sources_below (Suc i) now arr a" for x a
      using that i by (intro sources_below_outerStep) auto
  qed
  have cnt_acc: "counted now arr acc"
    unfolding acc_def
    by (rule fold_invariant)
      (simp_all add: counted_def[of _ _ "(arr, [])"] targeting_def list_all2_same
        counted_outerStep[OF _ ids])
  \<comment> \<open>after round \<open>i\<close> the agent at \<open>j\<close> is infected\<close>
  define pre where "pre = fold (outerStep now r) [0..<i] (arr, [])"
  have ev: "list_all2 (evolves now) arr (fst pre)"
    unfolding pre_def by (rule evolves_fold) (simp add: list_all2_same)
  then have len: "length (fst pre) = length arr" by (simp add: list_all2_lengthD)
  have ei: "evolves now (arr ! i) (fst pre ! i)" and ej: "evolves now (arr ! j) (fst pre ! j)"
    using ev i j by (simp_all add: list_all2_nthD)
  have "isDestabilized (fst (outerStep now r i (fst pre, snd pre)) ! j)"
    using i j sick near len evolves_fields(6)[OF ei] evolves_fields(2)[OF ej]
    by (intro infected_after_round) simp_all
  moreover have "acc = outerStep now r i pre" by (simp add: acc_def pre_def)
  ultimately have got: "isDestabilized (fst acc ! j)" by simp
  have one: "length (targeting (pid (arr ! j)) (snd acc)) = 1"
    using cnt_acc j got well by (simp add: counted_def)
  \<comment> \<open>the later rounds add no edge that targets it\<close>
  obtain more where more: "snd (infectPass now r arr) = snd acc @ more"
    unfolding fin using edges_appended by blast
  have "length (targeting (pid (arr ! j)) (snd (infectPass now r arr))) \<le> 1"
    using counted_infectPass[OF ids, of now r] j by (simp add: counted_def)
  then have "targeting (pid (arr ! j)) more = []"
    using one by (simp add: more targeting_def)
  then have "c \<in> set (targeting (pid (arr ! j)) (snd acc))"
    using c by (simp add: more targeting_def)
  then have "c \<in> set (snd acc)" by (simp add: targeting_def)
  then obtain k where "k < Suc i" "fst (cid c) = pid (arr ! k)"
    using below by (auto simp: sources_below_def)
  then show ?thesis by (intro exI[of _ k]) simp
qed

subsection \<open>The movement pass\<close>

lemma movePerson_keeps:
  "pid (fst (movePerson rnd dt p k)) = pid p"
  "isDestabilized (fst (movePerson rnd dt p k)) = isDestabilized p"
  "infectionTime (fst (movePerson rnd dt p k)) = infectionTime p"
  "color (fst (movePerson rnd dt p k)) = color p"
  "speed (fst (movePerson rnd dt p k)) = speed p"
  by (simp_all add: movePerson_def Let_def)

lemma movePerson_counter:
  "k \<le> fst (snd (movePerson rnd dt p k))"
  by (simp add: movePerson_def Let_def)

lemma movePerson_counted:
  "snd (snd (movePerson rnd dt p k)) \<longleftrightarrow> isDestabilized p \<and> \<not> arrives dt p"
  by (simp add: movePerson_def Let_def arrives_def)

lemma fst_movePeople_Cons:
  "fst (movePeople rnd dt (p # ps) k c) =
     fst (movePerson rnd dt p k)
     # fst (movePeople rnd dt ps (fst (snd (movePerson rnd dt p k)))
              (if snd (snd (movePerson rnd dt p k)) then c + 1 else c))"
  by (simp split: prod.splits)

lemma counter_movePeople_Cons:
  "fst (snd (movePeople rnd dt (p # ps) k c)) =
     fst (snd (movePeople rnd dt ps (fst (snd (movePerson rnd dt p k)))
              (if snd (snd (movePerson rnd dt p k)) then c + 1 else c)))"
  by (simp split: prod.splits)

lemma count_movePeople_Cons:
  "snd (snd (movePeople rnd dt (p # ps) k c)) =
     snd (snd (movePeople rnd dt ps (fst (snd (movePerson rnd dt p k)))
              (if snd (snd (movePerson rnd dt p k)) then c + 1 else c)))"
  by (simp split: prod.splits)

lemma movePeople_counter:
  "k \<le> fst (snd (movePeople rnd dt ps k c))"
proof (induction ps arbitrary: k c)
  case Nil
  then show ?case by simp
next
  case (Cons p ps)
  show ?case
    unfolding counter_movePeople_Cons
    by (rule order_trans[OF movePerson_counter Cons.IH])
qed

text \<open>Each agent of the moved array is the callback's result at some draw counter of the frame.\<close>

lemma movePeople_steps:
  "list_all2 (\<lambda>p p'. \<exists>j. k \<le> j \<and> j \<le> fst (snd (movePeople rnd dt ps k c))
       \<and> p' = fst (movePerson rnd dt p j))
     ps (fst (movePeople rnd dt ps k c))"
proof (induction ps arbitrary: k c)
  case Nil
  then show ?case by simp
next
  case (Cons p ps)
  define k' where "k' = fst (snd (movePerson rnd dt p k))"
  define c' where "c' = (if snd (snd (movePerson rnd dt p k)) then c + 1 else c)"
  define k'' where "k'' = fst (snd (movePeople rnd dt ps k' c'))"
  have kk: "k \<le> k'" unfolding k'_def by (rule movePerson_counter)
  have kk': "k' \<le> k''" unfolding k''_def by (rule movePeople_counter)
  have tl: "list_all2 (\<lambda>p p'. \<exists>j. k' \<le> j \<and> j \<le> k'' \<and> p' = fst (movePerson rnd dt p j))
       ps (fst (movePeople rnd dt ps k' c'))"
    using Cons.IH[of k' c'] by (simp add: k''_def)
  have tl': "list_all2 (\<lambda>p p'. \<exists>j. k \<le> j \<and> j \<le> k'' \<and> p' = fst (movePerson rnd dt p j))
       ps (fst (movePeople rnd dt ps k' c'))"
  proof (rule list_all2_mono[OF tl])
    fix q q'
    assume "\<exists>j. k' \<le> j \<and> j \<le> k'' \<and> q' = fst (movePerson rnd dt q j)"
    then obtain j where "k' \<le> j" "j \<le> k''" "q' = fst (movePerson rnd dt q j)" by blast
    then show "\<exists>j. k \<le> j \<and> j \<le> k'' \<and> q' = fst (movePerson rnd dt q j)"
      using kk by (intro exI[of _ j]) simp
  qed
  have hd: "\<exists>j. k \<le> j \<and> j \<le> k'' \<and> fst (movePerson rnd dt p k) = fst (movePerson rnd dt p j)"
    using kk kk' by (intro exI[of _ k]) simp
  show ?case
    unfolding fst_movePeople_Cons counter_movePeople_Cons
    using hd tl' by (simp add: k'_def[symmetric] c'_def[symmetric] k''_def[symmetric])
qed

lemma movePeople_count:
  "snd (snd (movePeople rnd dt ps k c)) =
     c + length (filter (\<lambda>p. isDestabilized p \<and> \<not> arrives dt p) ps)"
proof (induction ps arbitrary: k c)
  case Nil
  then show ?case by simp
next
  case (Cons p ps)
  show ?case
    unfolding count_movePeople_Cons Cons.IH
    by (simp add: movePerson_counted)
qed

subsection \<open>A frame, agent by agent\<close>

lemma length_frameMoved [simp]: "length (frameMoved rnd now s) = length (people s)"
  using movePeople_steps[of "seed s" rnd "now - lastUpdateTime s" "people s" 0]
  by (simp add: frameMoved_def list_all2_lengthD)

lemma frameMoved_nth:
  assumes "j < length (people s)"
  shows "\<exists>k \<ge> seed s. frameMoved rnd now s ! j =
           fst (movePerson rnd (now - lastUpdateTime s) (people s ! j) k)"
  using list_all2_nthD[OF movePeople_steps[of "seed s" rnd "now - lastUpdateTime s" "people s" 0]
      assms]
  by (auto simp: frameMoved_def)

lemma frameMoved_keeps:
  assumes "j < length (people s)"
  shows "pid (frameMoved rnd now s ! j) = pid (people s ! j)"
    "isDestabilized (frameMoved rnd now s ! j) = isDestabilized (people s ! j)"
    "infectionTime (frameMoved rnd now s ! j) = infectionTime (people s ! j)"
    "color (frameMoved rnd now s ! j) = color (people s ! j)"
    "speed (frameMoved rnd now s ! j) = speed (people s ! j)"
  using frameMoved_nth[OF assms, of rnd now] by (auto simp: movePerson_keeps)

lemma map_pid_frameMoved: "map pid (frameMoved rnd now s) = map pid (people s)"
  by (rule nth_equalityI) (simp_all add: frameMoved_keeps)

lemma fadeColor_keeps:
  "pid (fadeColor now p) = pid p"
  "coordinates (fadeColor now p) = coordinates p"
  "destination (fadeColor now p) = destination p"
  "progress (fadeColor now p) = progress p"
  "isDestabilized (fadeColor now p) = isDestabilized p"
  "infectionTime (fadeColor now p) = infectionTime p"
  "speed (fadeColor now p) = speed p"
  by (simp_all add: fadeColor_def Let_def split: option.splits)

lemma length_people_animatePeople [simp]:
  "length (people (animatePeople rnd now s)) = length (people s)"
  by (simp add: people_animatePeople)

lemma nth_people_animatePeople:
  "j < length (people s) \<Longrightarrow>
   people (animatePeople rnd now s) ! j =
     fadeColor now (fst (infectPass now (infectionRadius s) (frameMoved rnd now s)) ! j)"
  by (simp add: people_animatePeople)

lemma frame_body:
  assumes i: "i < length (people s)"
  shows "\<exists>k \<ge> seed s.
           coordinates (people (animatePeople rnd now s) ! i) =
             coordinates (fst (movePerson rnd (now - lastUpdateTime s) (people s ! i) k)) \<and>
           destination (people (animatePeople rnd now s) ! i) =
             destination (fst (movePerson rnd (now - lastUpdateTime s) (people s ! i) k)) \<and>
           progress (people (animatePeople rnd now s) ! i) =
             progress (fst (movePerson rnd (now - lastUpdateTime s) (people s ! i) k)) \<and>
           speed (people (animatePeople rnd now s) ! i) = speed (people s ! i) \<and>
           pid (people (animatePeople rnd now s) ! i) = pid (people s ! i)"
proof -
  obtain k where k: "k \<ge> seed s"
    "frameMoved rnd now s ! i = fst (movePerson rnd (now - lastUpdateTime s) (people s ! i) k)"
    using frameMoved_nth[OF i] by blast
  have ev: "evolves now (frameMoved rnd now s ! i)
              (fst (infectPass now (infectionRadius s) (frameMoved rnd now s)) ! i)"
    using i by (simp add: evolves_nth_infectPass)
  show ?thesis
    using k i evolves_fields(1-5)[OF ev]
    by (intro exI[of _ k]) (simp add: nth_people_animatePeople fadeColor_keeps movePerson_keeps)
qed

lemma sample_inBounds:
  assumes "0 \<le> rnd k" "rnd k \<le> 1" "0 \<le> rnd (k + 1)" "rnd (k + 1) \<le> 1"
    and "lng_min b \<le> lng_max b" "lat_min b \<le> lat_max b"
  shows "inBounds b (sample b rnd k)"
proof -
  have a: "0 \<le> u * w \<and> u * w \<le> w" if "0 \<le> u" "u \<le> 1" "0 \<le> w" for u w :: real
    using that by (simp add: mult_left_le_one_le)
  show ?thesis
    using a[of "rnd k" "lng_max b - lng_min b"] a[of "rnd (k + 1)" "lat_max b - lat_min b"] assms
    by (simp add: inBounds_def sample_def)
qed

lemma SF_BOUNDS_ordered: "lng_min SF_BOUNDS \<le> lng_max SF_BOUNDS" "lat_min SF_BOUNDS \<le> lat_max SF_BOUNDS"
  by (simp_all add: SF_BOUNDS_def)

subsection \<open>Agents stay inside the bounds\<close>






lemma generatePeople_pos:
  assumes "0 < n"
  shows "generatePeople rnd k now n b =
     Inr ((newPerson b rnd k 0)\<lparr>isDestabilized := True, infectionTime := Some now,
                                color := RGB 255 50 50\<rparr>
          # map (\<lambda>i. newPerson b rnd (k + 8 * i) i) [1..<nat n],
          k + 8 * nat n)"
proof -
  have "[0..<nat n] = 0 # [1..<nat n]" using assms by (simp add: upt_conv_Cons)
  then show ?thesis using assms by (simp add: generatePeople_def)
qed



lemma animatePeople_control [simp]:
  "simulationActive (animatePeople rnd now s) = simulationActive s"
  "lastUpdateTime (animatePeople rnd now s) = now"
  "infectionRadius (animatePeople rnd now s) = infectionRadius s"
  "capturedHistory (animatePeople rnd now s) = capturedHistory s"
  "startTime (animatePeople rnd now s) = startTime s"
  by (simp_all add: animatePeople_def Let_def split: prod.splits)

lemma handleReset_total:
  "\<exists>ps k'. generatePeople rnd (seed s) now 200 SF_BOUNDS = Inr (ps, k') \<and>
     handleReset rnd now now' s =
       Inr (s\<lparr>people := ps, connections := [],
              maxStats := \<lparr>totalAgents = None, infectedAgents = 1, infectionRate = Num 0.5\<rparr>,
              statistics := \<lparr>totalAgents = Some (length ps), infectedAgents = 1,
                             infectionRate = ratePercent 1 (length ps)\<rparr>,
              infectionHistory := [\<lparr>time = 0, infected = 1\<rparr>],
              currentTime := 0, startTime := now', seed := k'\<rparr>)"
  by (simp add: handleReset_def generatePeople_pos)

lemma mountEffect_total:
  "\<exists>ps k'. generatePeople rnd (seed s) now 200 SF_BOUNDS = Inr (ps, k') \<and>
     mountEffect rnd now s =
       Inr (s\<lparr>people := ps,
              statistics := \<lparr>totalAgents = Some (length ps), infectedAgents = 1,
                             infectionRate = ratePercent 1 (length ps)\<rparr>,
              infectionHistory := [\<lparr>time = 0, infected = 1\<rparr>],
              currentTime := 0, seed := k'\<rparr>)"
  by (simp add: mountEffect_def generatePeople_pos)

lemma step_Reset_control [simp]:
  "simulationActive (case handleReset rnd now now' s of Inl e \<Rightarrow> s | Inr s' \<Rightarrow> s') =
     simulationActive s"
  "lastUpdateTime (case handleReset rnd now now' s of Inl e \<Rightarrow> s | Inr s' \<Rightarrow> s') =
     lastUpdateTime s"
  using handleReset_total[of rnd s now now'] by auto

lemma mounted_control [simp]:
  "simulationActive (mounted rnd t_last t_start now) = False"
  "lastUpdateTime (mounted rnd t_last t_start now) = t_last"
  using mountEffect_total[of rnd "initialState t_last t_start" now]
  by (auto simp: mounted_def initialState_def)

lemma toggleSimulation_control [simp]:
  "simulationActive (toggleSimulation s) = (\<not> simulationActive s)"
  "lastUpdateTime (toggleSimulation s) = lastUpdateTime s"
  "people (toggleSimulation s) = people s"
  by (simp_all add: toggleSimulation_def)

lemma handleRadiusChange_control [simp]:
  "simulationActive (handleRadiusChange v s) = simulationActive s"
  "lastUpdateTime (handleRadiusChange v s) = lastUpdateTime s"
  "people (handleRadiusChange v s) = people s"
  "infectionRadius (handleRadiusChange v s) = v"
  by (simp_all add: handleRadiusChange_def)




lemma length_people_mounted [simp]: "length (people (mounted rnd t_last t_start now)) = 200"
  using mountEffect_total[of rnd "initialState t_last t_start" now]
  by (auto simp: mounted_def generatePeople_pos)

subsection \<open>Generation, a radius that is not positive, statistics\<close>

lemma toFixed1_half [simp]: "toFixed1 (1 / 2) = 1 / 2"
  by (simp add: toFixed1_def)

lemma ratePercent_1_200 [simp]: "ratePercent 1 200 = Num (1 / 2)"
  by (simp add: ratePercent_def)

lemma generatePeople_200:
  "generatePeople rnd k now 200 b =
     Inr ((newPerson b rnd k 0)\<lparr>isDestabilized := True, infectionTime := Some now,
                                color := RGB 255 50 50\<rparr>
          # map (\<lambda>i. newPerson b rnd (k + 8 * i) i) [1..<200],
          k + 1600)"
  by (simp add: generatePeople_pos)

lemma filter_sick_new:
  "filter isDestabilized (map (\<lambda>i. newPerson b rnd (f i) i) xs) = []"
  by (induction xs) (simp_all add: newPerson_def)

lemma map_pid_new:
  "map pid (map (\<lambda>i. newPerson b rnd (f i) i) xs) = xs"
  by (induction xs) (simp_all add: newPerson_def)

lemma calculateDistance_nonneg: "0 \<le> calculateDistance p q"
  by (simp add: calculateDistance_def Let_def)

lemma catches_nonpositive: "r \<le> 0 \<Longrightarrow> \<not> catches (Num r) p q"
  using calculateDistance_nonneg[of "coordinates p" "coordinates q"]
  by (simp add: catches_def)

lemma innerLoop_nonpositive:
  assumes "r \<le> 0"
  shows "innerLoop now (Num r) p arr = (arr, [])"
  by (induction arr) (simp_all add: innerLoop_def infectOther_alt catches_nonpositive[OF assms])

lemma infectPass_nonpositive:
  assumes "r \<le> 0"
  shows "infectPass now (Num r) arr = (arr, [])"
  unfolding infectPass_def
  by (rule fold_invariant)
    (simp_all add: prod_eq_iff fst_outerStep snd_outerStep innerLoop_nonpositive[OF assms])

lemma frameInfectedCount_eq:
  "frameInfectedCount rnd now s =
     length (filter (\<lambda>p. isDestabilized p \<and> \<not> arrives (now - lastUpdateTime s) p) (people s))"
  by (simp add: frameInfectedCount_def movePeople_count)

lemma maxStats_animatePeople:
  "maxStats (animatePeople rnd now s) =
     \<lparr>totalAgents = None,
      infectedAgents = max (infectedAgents (maxStats s)) (frameFinalCount rnd now s),
      infectionRate =
        js_max (infectionRate (maxStats s))
          (ratePercent (frameFinalCount rnd now s) (length (people s)))\<rparr>"
proof -
  have "maxStats (animatePeople rnd now s) =
     \<lparr>totalAgents = None,
      infectedAgents = max (infectedAgents (maxStats s)) (frameFinalCount rnd now s),
      infectionRate =
        js_max (infectionRate (maxStats s))
          (ratePercent (frameFinalCount rnd now s)
             (length (people (animatePeople rnd now s))))\<rparr>"
    by (simp add: animatePeople_def frameFinalCount_def frameInfectedCount_def Let_def
        split: prod.splits)
  then show ?thesis by simp
qed

lemma statistics_animatePeople:
  "statistics (animatePeople rnd now s) = maxStats (animatePeople rnd now s)"
  by (simp add: animatePeople_def Let_def split: prod.splits)

lemma infectionHistory_animatePeople:
  "infectionHistory (animatePeople rnd now s) =
     infectionHistory s
     @ [\<lparr>time = toFixed1 (real_of_int (now - startTime s) / 1000),
         infected = frameFinalCount rnd now s\<rparr>]"
  by (simp add: animatePeople_def frameFinalCount_def frameInfectedCount_def Let_def
      split: prod.splits)

lemma stats_step:
  assumes inv: "stats_inv s" and e: "\<not> isReset e"
  shows "stats_inv (step rnd s e) \<and>
         stats_le (statistics s) (statistics (step rnd s e)) \<and>
         stats_le (maxStats s) (maxStats (step rnd s e))"
proof -
  obtain a b where ab: "infectionRate (statistics s) = Num a" "infectionRate (maxStats s) = Num b"
      "a \<le> b" and n: "infectedAgents (statistics s) \<le> infectedAgents (maxStats s)"
    and ne: "people s \<noteq> []"
    using inv by (auto simp: stats_inv_def)
  have same: "stats_inv s \<and> stats_le (statistics s) (statistics s) \<and>
      stats_le (maxStats s) (maxStats s)"
    using inv ab by (simp add: stats_le_def)
  show ?thesis
  proof (cases e)
    case (Frame now)
    show ?thesis
    proof (cases "simulationActive s")
      case True
      define x where
        "x = toFixed1 (real (frameFinalCount rnd now s) / real (length (people s)) * 100)"
      define s' where "s' = animatePeople rnd now s"
      have "ratePercent (frameFinalCount rnd now s) (length (people s)) = Num x"
        using ne by (simp add: ratePercent_def x_def)
      then have mx: "maxStats s' =
          \<lparr>totalAgents = None,
           infectedAgents = max (infectedAgents (maxStats s)) (frameFinalCount rnd now s),
           infectionRate = Num (max b x)\<rparr>"
        using ab(2) by (simp add: s'_def maxStats_animatePeople)
      have st: "statistics s' = maxStats s'" by (simp add: s'_def statistics_animatePeople)
      have "length (people s') = length (people s)" by (simp add: s'_def)
      then have pe: "people s' \<noteq> []" using ne by (metis length_0_conv)
      have "stats_inv s'" using pe by (simp add: stats_inv_def st mx)
      moreover have "stats_le (statistics s) (statistics s')"
        using ab n by (auto simp: stats_le_def st mx max_def)
      moreover have "stats_le (maxStats s) (maxStats s')"
        using ab by (auto simp: stats_le_def mx max_def)
      ultimately show ?thesis using True Frame by (simp add: s'_def)
    next
      case False
      then show ?thesis using Frame same by simp
    qed
  next
    case Toggle
    then show ?thesis using same by (simp add: toggleSimulation_def stats_inv_def)
  next
    case (RadiusChange v)
    then show ?thesis using same by (simp add: handleRadiusChange_def stats_inv_def)
  next
    case (Reset now now')
    then show ?thesis using e by simp
  qed
qed


lemma js_ge_trans: "js_ge z y \<Longrightarrow> js_ge y x \<Longrightarrow> js_ge z x"
  by (cases x; cases y; cases z) auto

lemma stats_le_trans: "stats_le x y \<Longrightarrow> stats_le y z \<Longrightarrow> stats_le x z"
  by (auto simp: stats_le_def intro: js_ge_trans)

lemma stats_le_refl:
  "stats_inv s \<Longrightarrow> stats_le (statistics s) (statistics s) \<and> stats_le (maxStats s) (maxStats s)"
  by (auto simp: stats_inv_def stats_le_def)

lemma stats_trace:
  "stats_inv s \<Longrightarrow> list_all (\<lambda>e. \<not> isReset e) es \<Longrightarrow>
   \<forall>s' \<in> set (trace rnd s es).
     stats_inv s' \<and> stats_le (statistics s) (statistics s') \<and> stats_le (maxStats s) (maxStats s')"
proof (induction es arbitrary: s)
  case Nil
  then show ?case by (simp add: stats_le_refl)
next
  case (Cons e es)
  have st: "stats_inv (step rnd s e)" "stats_le (statistics s) (statistics (step rnd s e))"
    "stats_le (maxStats s) (maxStats (step rnd s e))"
    using stats_step[of s e rnd] Cons.prems by simp_all
  have ih: "\<forall>s' \<in> set (trace rnd (step rnd s e) es).
     stats_inv s' \<and> stats_le (statistics (step rnd s e)) (statistics s') \<and>
     stats_le (maxStats (step rnd s e)) (maxStats s')"
    using Cons.IH[OF st(1)] Cons.prems(2) by simp
  show ?case
  proof
    fix s' assume "s' \<in> set (trace rnd s (e # es))"
    then consider "s' = s" | "s' \<in> set (trace rnd (step rnd s e) es)" by auto
    then show "stats_inv s' \<and> stats_le (statistics s) (statistics s') \<and>
        stats_le (maxStats s) (maxStats s')"
    proof cases
      case 1
      then show ?thesis using Cons.prems(1) by (simp add: stats_le_refl)
    next
      case 2
      then show ?thesis using ih st by (blast intro: stats_le_trans)
    qed
  qed
qed

lemma length_trace [simp]: "length (trace rnd s es) = Suc (length es)"
  by (induction es arbitrary: s) simp_all

lemma trace_later:
  "a \<le> b \<Longrightarrow> b \<le> length es \<Longrightarrow>
   trace rnd s es ! b \<in> set (trace rnd (trace rnd s es ! a) (drop a es))"
proof (induction es arbitrary: s a b)
  case Nil
  then show ?case by simp
next
  case (Cons e es)
  show ?case
  proof (cases a)
    case 0
    have "trace rnd s (e # es) ! b \<in> set (trace rnd s (e # es))"
      using Cons.prems by (intro nth_mem) simp
    then show ?thesis using 0 by simp
  next
    case (Suc a')
    then obtain b' where b: "b = Suc b'" using Cons.prems by (cases b) simp_all
    show ?thesis using Suc b Cons.prems Cons.IH[of a' b' "step rnd s e"] by simp
  qed
qed

lemma stats_invI:
  assumes "people s \<noteq> []" "infectionRate (statistics s) = Num a"
    "infectionRate (maxStats s) = Num b" "a \<le> b"
    "infectedAgents (statistics s) \<le> infectedAgents (maxStats s)"
  shows "stats_inv s"
  using assms by (auto simp: stats_inv_def)

lemma stats_inv_mounted: "stats_inv (mounted rnd t_last t_start t)"
proof -
  obtain ps k' where m: "mounted rnd t_last t_start t =
       (initialState t_last t_start)\<lparr>people := ps,
              statistics := \<lparr>totalAgents = Some (length ps), infectedAgents = 1,
                             infectionRate = ratePercent 1 (length ps)\<rparr>,
              infectionHistory := [\<lparr>time = 0, infected = 1\<rparr>],
              currentTime := 0, seed := k'\<rparr>"
    using mountEffect_total[of rnd "initialState t_last t_start" t] by (auto simp: mounted_def)
  have len: "length (people (mounted rnd t_last t_start t)) = 200" by simp
  then have ps: "length ps = 200" by (simp add: m)
  show ?thesis
  proof (rule stats_invI[where a = "1 / 2" and b = "1 / 2"])
    show "people (mounted rnd t_last t_start t) \<noteq> []"
    proof
      assume e: "people (mounted rnd t_last t_start t) = []"
      show False using len unfolding e by simp
    qed
    show "infectionRate (statistics (mounted rnd t_last t_start t)) = Num (1 / 2)"
      by (simp add: m ps ratePercent_def)
    show "infectionRate (maxStats (mounted rnd t_last t_start t)) = Num (1 / 2)"
      by (simp add: m initialState_def)
    show "infectedAgents (statistics (mounted rnd t_last t_start t))
        \<le> infectedAgents (maxStats (mounted rnd t_last t_start t))"
      by (simp add: m initialState_def)
  qed simp
qed

lemma stats_inv_Reset: "stats_inv (step rnd s (Reset t t'))"
proof -
  obtain ps k' where g: "generatePeople rnd (seed s) t 200 SF_BOUNDS = Inr (ps, k')"
    and m: "step rnd s (Reset t t') =
       s\<lparr>people := ps, connections := [],
              maxStats := \<lparr>totalAgents = None, infectedAgents = 1, infectionRate = Num 0.5\<rparr>,
              statistics := \<lparr>totalAgents = Some (length ps), infectedAgents = 1,
                             infectionRate = ratePercent 1 (length ps)\<rparr>,
              infectionHistory := [\<lparr>time = 0, infected = 1\<rparr>],
              currentTime := 0, startTime := t', seed := k'\<rparr>"
    using handleReset_total[of rnd s t t'] by auto
  have ps: "length ps = 200" using g by (auto simp: generatePeople_pos)
  show ?thesis
  proof (rule stats_invI[where a = "1 / 2" and b = "1 / 2"])
    show "people (step rnd s (Reset t t')) \<noteq> []" unfolding m using ps by auto
    show "infectionRate (statistics (step rnd s (Reset t t'))) = Num (1 / 2)"
      unfolding m by (simp add: ps ratePercent_def)
    show "infectionRate (maxStats (step rnd s (Reset t t'))) = Num (1 / 2)"
      unfolding m by simp
    show "infectedAgents (statistics (step rnd s (Reset t t')))
        \<le> infectedAgents (maxStats (step rnd s (Reset t t')))"
      unfolding m by simp
  qed simp
qed

subsection \<open>A pool gathered at the centre\<close>

lemma mounted_eq:
  "mounted rnd t_last t_start now =
     (initialState t_last t_start)
       \<lparr>people := (newPerson SF_BOUNDS rnd 0 0)\<lparr>isDestabilized := True,
                     infectionTime := Some now, color := RGB 255 50 50\<rparr>
                   # map (\<lambda>i. newPerson SF_BOUNDS rnd (0 + 8 * i) i) [1..<200],
        statistics := \<lparr>totalAgents = Some 200, infectedAgents = 1, infectionRate = Num (1 / 2)\<rparr>,
        infectionHistory := [\<lparr>time = 0, infected = 1\<rparr>],
        currentTime := 0, seed := 1600\<rparr>"
  by (simp add: mounted_def mountEffect_def generatePeople_200 initialState_def ratePercent_def)

lemma newPerson_steady:
  "coordinates (newPerson SF_BOUNDS steady k i) = (- 122.45, 37.75)"
  "destination (newPerson SF_BOUNDS steady k i) = (- 122.45, 37.75)"
  "speed (newPerson SF_BOUNDS steady k i) = 0.003"
  "progress (newPerson SF_BOUNDS steady k i) = 0"
  "isDestabilized (newPerson SF_BOUNDS steady k i) = False"
  by (simp_all add: newPerson_def sample_def SF_BOUNDS_def steady_def)

lemma huddled_frame:
  assumes h: "huddled prog (people s)"
    and stay: "prog + 0.003 * (real_of_int (now - lastUpdateTime s) / 30) < 1"
  shows "huddled (prog + 0.003 * (real_of_int (now - lastUpdateTime s) / 30))
           (people (animatePeople rnd now s))"
  unfolding huddled_def
proof
  fix q assume "q \<in> set (people (animatePeople rnd now s))"
  then obtain i where i: "i < length (people s)" and q: "q = people (animatePeople rnd now s) ! i"
    by (auto simp: in_set_conv_nth)
  have p: "coordinates (people s ! i) = (- 122.45, 37.75)"
    "destination (people s ! i) = (- 122.45, 37.75)"
    "speed (people s ! i) = 0.003" "progress (people s ! i) = prog"
    using h i by (simp_all add: huddled_def)
  obtain k where "coordinates q =
             coordinates (fst (movePerson rnd (now - lastUpdateTime s) (people s ! i) k))"
      "destination q =
             destination (fst (movePerson rnd (now - lastUpdateTime s) (people s ! i) k))"
      "progress q =
             progress (fst (movePerson rnd (now - lastUpdateTime s) (people s ! i) k))"
      "speed q = speed (people s ! i)"
    using frame_body[OF i, of rnd now] q by blast
  then show "coordinates q = (- 122.45, 37.75) \<and> destination q = (- 122.45, 37.75) \<and>
        speed q = 0.003 \<and>
        progress q = prog + 0.003 * (real_of_int (now - lastUpdateTime s) / 30)"
    using p stay by (simp add: movePerson_def Let_def)
qed

lemma huddled_all_infected:
  assumes h: "huddled prog (people s)"
    and stay: "prog + 0.003 * (real_of_int (now - lastUpdateTime s) / 30) < 1"
    and i: "i < length (people s)" and sick: "isDestabilized (people s ! i)"
    and r: "infectionRadius s = Num 0.003"
  shows "\<forall>q \<in> set (people (animatePeople rnd now s)). isDestabilized q"
proof
  fix q assume "q \<in> set (people (animatePeople rnd now s))"
  then obtain j where j: "j < length (people s)" and q: "q = people (animatePeople rnd now s) ! j"
    by (auto simp: in_set_conv_nth)
  have at: "coordinates (frameMoved rnd now s ! n) = (- 122.45, 37.75)"
    if n: "n < length (people s)" for n
  proof -
    have p: "coordinates (people s ! n) = (- 122.45, 37.75)"
      "destination (people s ! n) = (- 122.45, 37.75)"
      "speed (people s ! n) = 0.003" "progress (people s ! n) = prog"
      using h n by (simp_all add: huddled_def)
    obtain k where "frameMoved rnd now s ! n =
        fst (movePerson rnd (now - lastUpdateTime s) (people s ! n) k)"
      using frameMoved_nth[OF n] by blast
    then show ?thesis using p stay by (simp add: movePerson_def Let_def)
  qed
  have "isDestabilized (fst (infectPass now (infectionRadius s) (frameMoved rnd now s)) ! j)"
    using i j sick at[OF i] at[OF j] r
    by (intro infectPass_infects[of i])
      (simp_all add: frameMoved_keeps calculateDistance_def)
  then show "isDestabilized q"
    using q j by (simp add: nth_people_animatePeople fadeColor_keeps)
qed

lemma huddled_arrives:
  assumes h: "huddled prog ps" and p: "p \<in> set ps"
  shows "arrives d p \<longleftrightarrow> 1 \<le> prog + 0.003 * (real_of_int d / 30)"
proof -
  have sp: "speed p = 0.003" and pr: "progress p = prog"
    using h p by (simp_all add: huddled_def)
  show ?thesis unfolding arrives_def sp pr by simp
qed

lemma count_all:
  assumes h: "huddled prog (people s)" and sick: "\<forall>q \<in> set (people s). isDestabilized q"
    and stay: "prog + 0.003 * (real_of_int (now - lastUpdateTime s) / 30) < 1"
  shows "frameInfectedCount rnd now s = length (people s)"
proof -
  have "filter (\<lambda>p. isDestabilized p \<and> \<not> arrives (now - lastUpdateTime s) p) (people s)
      = people s"
  proof (rule filter_True, rule ballI)
    fix p assume p: "p \<in> set (people s)"
    have "\<not> arrives (now - lastUpdateTime s) p"
      unfolding huddled_arrives[OF h p] using stay by simp
    then show "isDestabilized p \<and> \<not> arrives (now - lastUpdateTime s) p"
      using sick p by simp
  qed
  then show ?thesis by (simp add: frameInfectedCount_eq)
qed

lemma count_none:
  assumes h: "huddled prog (people s)"
    and go: "prog + 0.003 * (real_of_int (now - lastUpdateTime s) / 30) \<ge> 1"
  shows "frameInfectedCount rnd now s = 0"
proof -
  have "\<forall>p \<in> set (people s). \<not> (isDestabilized p \<and> \<not> arrives (now - lastUpdateTime s) p)"
  proof
    fix p assume p: "p \<in> set (people s)"
    have "arrives (now - lastUpdateTime s) p"
      unfolding huddled_arrives[OF h p] using go by simp
    then show "\<not> (isDestabilized p \<and> \<not> arrives (now - lastUpdateTime s) p)" by simp
  qed
  then have
    "filter (\<lambda>p. isDestabilized p \<and> \<not> arrives (now - lastUpdateTime s) p) (people s) = []"
    by (simp add: filter_empty_conv)
  then show ?thesis by (simp add: frameInfectedCount_eq)
qed


lemma infected_stay:
  assumes "\<forall>q \<in> set (people s). isDestabilized q"
  shows "\<forall>q \<in> set (people (animatePeople rnd now s)). isDestabilized q"
proof
  fix q assume "q \<in> set (people (animatePeople rnd now s))"
  then obtain j where j: "j < length (people s)" and q: "q = people (animatePeople rnd now s) ! j"
    by (auto simp: in_set_conv_nth)
  have "isDestabilized (frameMoved rnd now s ! j)"
    using assms j by (simp add: frameMoved_keeps)
  moreover have "evolves now (frameMoved rnd now s ! j)
      (fst (infectPass now (infectionRadius s) (frameMoved rnd now s)) ! j)"
    using j by (simp add: evolves_nth_infectPass)
  ultimately have "isDestabilized (fst (infectPass now (infectionRadius s) (frameMoved rnd now s)) ! j)"
    by (auto simp: evolves_def)
  then show "isDestabilized q" using q j by (simp add: nth_people_animatePeople fadeColor_keeps)
qed

lemma huddled_mounted: "huddled 0 (people (mounted steady t_last t_start now))"
  by (auto simp: mounted_eq huddled_def newPerson_steady)

lemma count_mounted:
  assumes "people s = people (mounted steady t_last t_start t)"
    and "0 + 0.003 * (real_of_int (now - lastUpdateTime s) / 30) < 1"
  shows "frameInfectedCount rnd now s = 1"
proof -
  define zero where "zero = (newPerson SF_BOUNDS steady 0 0)\<lparr>isDestabilized := True,
                     infectionTime := Some t, color := RGB 255 50 50\<rparr>"
  define others where "others = map (\<lambda>i. newPerson SF_BOUNDS steady (0 + 8 * i) i) [1..<200]"
  have p: "people s = zero # others" by (simp add: assms(1) mounted_eq zero_def others_def)
  have h: "huddled 0 (people s)" unfolding assms(1) by (rule huddled_mounted)
  have z: "zero \<in> set (people s)" by (simp add: p)
  have "\<not> arrives (now - lastUpdateTime s) zero"
    unfolding huddled_arrives[OF h z] using assms(2) by simp
  moreover have "isDestabilized zero" by (simp add: zero_def)
  moreover have "filter (\<lambda>p. isDestabilized p \<and> \<not> arrives (now - lastUpdateTime s) p) others = []"
    by (auto simp: filter_empty_conv others_def newPerson_steady)
  ultimately show ?thesis by (simp add: frameInfectedCount_eq p)
qed

subsection \<open>The example inputs, evaluated\<close>

lemma calculateDistance_same_lat:
  "calculateDistance (a, c) (b, c) = \<bar>a - b\<bar>"
  by (simp add: calculateDistance_def)

lemmas example_defs =
  chainOfThree_def twoSources_def running_def initialState_def agentAt_def steady_def

lemma frameMoved_chainOfThree:
  "frameMoved steady 1016 chainOfThree =
     [(agentAt 0 (- 122.45, 37.75) True)\<lparr>progress := 0.0016\<rparr>,
      (agentAt 1 (- 122.448, 37.75) False)\<lparr>progress := 0.0016\<rparr>,
      (agentAt 2 (- 122.446, 37.75) False)\<lparr>progress := 0.0016\<rparr>]"
  by (simp add: frameMoved_def example_defs movePerson_def Let_def)

lemma frameMoved_twoSources:
  "frameMoved steady 1016 twoSources =
     [(agentAt 0 (- 122.45, 37.75) True)\<lparr>progress := 0.0016\<rparr>,
      (agentAt 1 (- 122.449, 37.75) True)\<lparr>progress := 0.0016\<rparr>,
      (agentAt 2 (- 122.4495, 37.75) False)\<lparr>progress := 0.0016\<rparr>]"
  by (simp add: frameMoved_def example_defs movePerson_def Let_def)

lemma upt3: "[0..<3] = [0, 1, 2]"
  by (simp add: upt_rec)

lemma frameNewConnections_chainOfThree:
  "frameNewConnections steady 1016 chainOfThree =
     [\<lparr>cid = (0, 1), source = (- 122.45, 37.75), target = (- 122.448, 37.75), timestamp = 1016\<rparr>,
      \<lparr>cid = (1, 2), source = (- 122.448, 37.75), target = (- 122.446, 37.75), timestamp = 1016\<rparr>]"
  unfolding frameNewConnections_def frameMoved_chainOfThree
  by (simp add: example_defs infectPass_def upt3 outerStep_def innerLoop_def infectOther_def
      calculateDistance_same_lat Let_def)

lemma frameNewConnections_twoSources:
  "frameNewConnections steady 1016 twoSources =
     [\<lparr>cid = (0, 2), source = (- 122.45, 37.75), target = (- 122.4495, 37.75), timestamp = 1016\<rparr>]"
  unfolding frameNewConnections_def frameMoved_twoSources
  by (simp add: example_defs infectPass_def upt3 outerStep_def innerLoop_def infectOther_def
      calculateDistance_same_lat Let_def)

subsection \<open>Eviction of transmission edges\<close>

text \<open>
  Claim C5. After the eviction step of a frame at time \<open>now\<close>, every edge left in the
  ledger has \<open>now - timestamp < 2000\<close>; every edge that was in the ledger and is younger than
  2000 ms is still there, and so is every edge created in this frame.
\<close>

theorem eviction_after_frame:
  "(\<forall>c \<in> set (connections (animatePeople rnd now s)). now - timestamp c < 2000) \<and>
   (\<forall>c \<in> set (connections s).
      now - timestamp c < 2000 \<longrightarrow> c \<in> set (connections (animatePeople rnd now s))) \<and>
   (\<forall>c \<in> set (frameNewConnections rnd now s).
      c \<in> set (connections (animatePeople rnd now s)))"
  by (auto simp: connections_animatePeople frameNewConnections_def
      dest: timestamp_infectPass)

theorem eviction_after_frame_witness:
  "edgeAt (8, 9) 900 \<in> set (connections (animatePeople steady 2600
       (running [agentAt 0 (- 122.45, 37.75) True, agentAt 1 (- 122.448, 37.75) False]
          [edgeAt (7, 8) 500, edgeAt (8, 9) 900]))) \<and>
   edgeAt (7, 8) 500 \<notin> set (connections (animatePeople steady 2600
       (running [agentAt 0 (- 122.45, 37.75) True, agentAt 1 (- 122.448, 37.75) False]
          [edgeAt (7, 8) 500, edgeAt (8, 9) 900])))"
  using eviction_after_frame [of steady 2600
      "running [agentAt 0 (- 122.45, 37.75) True, agentAt 1 (- 122.448, 37.75) False]
          [edgeAt (7, 8) 500, edgeAt (8, 9) 900]"]
  by (auto simp: running_def edgeAt_def initialState_def)

subsection \<open>Sources of infection within a frame\<close>

text \<open>
  Claim C1 says that an agent infected during the detection pass of a frame is the source
  of no infection or edge recorded in that frame. The pass writes to the agents of the array
  it is iterating over, so this fails: with three agents 0.002 degrees apart and radius
  0.003, agent 1 is not infected at the start of the frame, is infected by agent 0, and is
  then the source of the edge to agent 2, which is 0.004 degrees away from agent 0.
\<close>

theorem one_hop_per_tick_counterexample:
  "\<not> isDestabilized (people chainOfThree ! 1) \<and> pid (people chainOfThree ! 1) = 1 \<and>
   \<not> isDestabilized (people chainOfThree ! 2) \<and>
   isDestabilized (people (animatePeople steady 1016 chainOfThree) ! 2) \<and>
   connections (animatePeople steady 1016 chainOfThree) =
     [\<lparr>cid = (0, 1), source = (- 122.45, 37.75), target = (- 122.448, 37.75), timestamp = 1016\<rparr>,
      \<lparr>cid = (1, 2), source = (- 122.448, 37.75), target = (- 122.446, 37.75), timestamp = 1016\<rparr>]"
proof -
  have "isDestabilized (people (animatePeople steady 1016 chainOfThree) ! 2)"
    unfolding people_animatePeople frameMoved_chainOfThree
    by (simp add: example_defs infectPass_def upt3 outerStep_def innerLoop_def infectOther_def
      calculateDistance_same_lat Let_def fadeColor_keeps)
  moreover have "connections (animatePeople steady 1016 chainOfThree) =
     [\<lparr>cid = (0, 1), source = (- 122.45, 37.75), target = (- 122.448, 37.75), timestamp = 1016\<rparr>,
      \<lparr>cid = (1, 2), source = (- 122.448, 37.75), target = (- 122.446, 37.75), timestamp = 1016\<rparr>]"
    unfolding connections_animatePeople frameNewConnections_chainOfThree
    by (simp add: example_defs)
  ultimately show ?thesis by (simp add: example_defs)
qed

text \<open>
  Claim C1, as amended. In every frame, the source of each recorded edge is an agent that
  was infected when the frame started, or the target of an edge recorded earlier in the
  same frame; the target of each recorded edge is an agent that was not infected when the
  frame started.
\<close>

theorem cascade_sources:
  assumes m: "m < length (frameNewConnections rnd now s)"
  shows "((\<exists>k < length (people s). isDestabilized (people s ! k) \<and>
             pid (people s ! k) = fst (cid (frameNewConnections rnd now s ! m))) \<or>
          (\<exists>m' < m. snd (cid (frameNewConnections rnd now s ! m')) =
             fst (cid (frameNewConnections rnd now s ! m)))) \<and>
         (\<exists>j < length (people s). \<not> isDestabilized (people s ! j) \<and>
             pid (people s ! j) = snd (cid (frameNewConnections rnd now s ! m)))"
proof -
  define arr where "arr = frameMoved rnd now s"
  define conns where "conns = frameNewConnections rnd now s"
  have conns: "conns = snd (infectPass now (infectionRadius s) arr)"
    by (simp add: conns_def arr_def frameNewConnections_def)
  have len: "length arr = length (people s)" by (simp add: arr_def)
  have keep: "isDestabilized (arr ! k) = isDestabilized (people s ! k)"
    "pid (arr ! k) = pid (people s ! k)" if "k < length (people s)" for k
    using that by (simp_all add: arr_def frameMoved_keeps)
  have ch: "chained now arr (infectPass now (infectionRadius s) arr)"
    by (rule chained_infectPass)
  have "(\<exists>k < length arr. isDestabilized (arr ! k) \<and> pid (arr ! k) = fst (cid (conns ! m))) \<or>
        (\<exists>m' < m. snd (cid (conns ! m')) = fst (cid (conns ! m)))"
    using ch m by (simp add: chained_def conns conns_def[symmetric])
  then have src: "(\<exists>k < length (people s). isDestabilized (people s ! k) \<and>
             pid (people s ! k) = fst (cid (conns ! m))) \<or>
          (\<exists>m' < m. snd (cid (conns ! m')) = fst (cid (conns ! m)))"
    using keep len by auto
  have "conns ! m \<in> set conns" using m by (simp add: conns_def)
  then obtain j where "j < length arr" "\<not> isDestabilized (arr ! j)"
    "snd (cid (conns ! m)) = pid (arr ! j)"
    using edges_from_infectPass[of now "infectionRadius s" arr]
    by (auto simp: edges_from_def conns edgeOf_def)
  then have tgt: "\<exists>j < length (people s). \<not> isDestabilized (people s ! j) \<and>
             pid (people s ! j) = snd (cid (conns ! m))"
    using keep len by auto
  show ?thesis using src tgt by (simp add: conns_def)
qed

theorem cascade_sources_witness:
  "(1::nat) < length (frameNewConnections steady 1016 chainOfThree) \<and>
   (((\<exists>k < length (people chainOfThree). isDestabilized (people chainOfThree ! k) \<and>
        pid (people chainOfThree ! k) =
          fst (cid (frameNewConnections steady 1016 chainOfThree ! 1))) \<or>
     (\<exists>m' < 1. snd (cid (frameNewConnections steady 1016 chainOfThree ! m')) =
        fst (cid (frameNewConnections steady 1016 chainOfThree ! 1)))) \<and>
    (\<exists>j < length (people chainOfThree). \<not> isDestabilized (people chainOfThree ! j) \<and>
        pid (people chainOfThree ! j) =
          snd (cid (frameNewConnections steady 1016 chainOfThree ! 1))))"
proof (rule conjI)
  show hyp: "(1::nat) < length (frameNewConnections steady 1016 chainOfThree)"
    by (simp add: frameNewConnections_chainOfThree)
  show "((\<exists>k < length (people chainOfThree). isDestabilized (people chainOfThree ! k) \<and>
        pid (people chainOfThree ! k) =
          fst (cid (frameNewConnections steady 1016 chainOfThree ! 1))) \<or>
     (\<exists>m' < 1. snd (cid (frameNewConnections steady 1016 chainOfThree ! m')) =
        fst (cid (frameNewConnections steady 1016 chainOfThree ! 1)))) \<and>
    (\<exists>j < length (people chainOfThree). \<not> isDestabilized (people chainOfThree ! j) \<and>
        pid (people chainOfThree ! j) =
          snd (cid (frameNewConnections steady 1016 chainOfThree ! 1)))"
    by (rule cascade_sources[OF hyp])
qed

subsection \<open>Infection of an agent within the radius\<close>

text \<open>
  Claim C6 says that when \<open>A\<close> is infected and \<open>B\<close> is not, and they are closer than the
  radius after the movement pass, \<open>B\<close> is infected after the frame and exactly one edge is
  recorded from the position of \<open>A\<close> to that of \<open>B\<close>. The edge comes from the first infected
  agent the outer loop finds within the radius of \<open>B\<close>: with agents 0 and 1 infected and both
  near agent 2, the only edge recorded runs from agent 0, none from agent 1.
\<close>

theorem one_edge_from_each_source_counterexample:
  "isDestabilized (people twoSources ! 1) \<and> \<not> isDestabilized (people twoSources ! 2) \<and>
   coordinates (frameMoved steady 1016 twoSources ! 1) = (- 122.449, 37.75) \<and>
   coordinates (frameMoved steady 1016 twoSources ! 2) = (- 122.4495, 37.75) \<and>
   calculateDistance (- 122.449, 37.75) (- 122.4495, 37.75) < 0.003 \<and>
   infectionRadius twoSources = Num 0.003 \<and>
   frameNewConnections steady 1016 twoSources =
     [\<lparr>cid = (0, 2), source = (- 122.45, 37.75), target = (- 122.4495, 37.75), timestamp = 1016\<rparr>]"
  unfolding frameNewConnections_twoSources frameMoved_twoSources
  by (simp add: example_defs calculateDistance_same_lat)

text \<open>
  Claim C6, as amended. If the agent at index \<open>i\<close> is infected and the agent at index \<open>j\<close>
  is not when a frame starts, the ids of the pool are distinct, and after the movement pass
  the two are closer than the radius, then after the frame the agent at \<open>j\<close> is infected
  with infection time \<open>now\<close>, and exactly one edge recorded in the frame targets it: it runs
  from the moved position of an agent within the radius, at index \<open>i\<close> or before it in the
  pool, to the moved position of \<open>j\<close>, and it is in the ledger after the frame.
\<close>

theorem infection_of_neighbour:
  assumes i: "i < length (people s)" and j: "j < length (people s)"
    and sick: "isDestabilized (people s ! i)" and well: "\<not> isDestabilized (people s ! j)"
    and near: "js_lt (Num (calculateDistance (coordinates (frameMoved rnd now s ! i))
                   (coordinates (frameMoved rnd now s ! j)))) (infectionRadius s)"
    and ids: "distinct (map pid (people s))"
  shows "isDestabilized (people (animatePeople rnd now s) ! j) \<and>
         infectionTime (people (animatePeople rnd now s) ! j) = Some now \<and>
         (\<exists>k \<le> i.
            targeting (pid (people s ! j)) (frameNewConnections rnd now s) =
              [edgeOf now (frameMoved rnd now s ! k) (frameMoved rnd now s ! j)] \<and>
            edgeOf now (frameMoved rnd now s ! k) (frameMoved rnd now s ! j)
              \<in> set (connections (animatePeople rnd now s)) \<and>
            js_lt (Num (calculateDistance (coordinates (frameMoved rnd now s ! k))
                   (coordinates (frameMoved rnd now s ! j)))) (infectionRadius s))"
proof -
  define arr where "arr = frameMoved rnd now s"
  define r where "r = infectionRadius s"
  define res where "res = infectPass now r arr"
  have len: "length arr = length (people s)" by (simp add: arr_def)
  have sick': "isDestabilized (arr ! i)" and well': "\<not> isDestabilized (arr ! j)"
    using sick well i j by (simp_all add: arr_def frameMoved_keeps)
  have ids': "distinct (map pid arr)" using ids by (simp add: arr_def map_pid_frameMoved)
  have got: "isDestabilized (fst res ! j)"
    unfolding res_def using i j len sick' near
    by (intro infectPass_infects[of i]) (simp_all add: arr_def r_def)
  have ej: "evolves now (arr ! j) (fst res ! j)"
    unfolding res_def using j len by (simp add: evolves_nth_infectPass)
  have time: "infectionTime (fst res ! j) = Some now"
    using evolves_fields(8)[OF ej got well'] .
  have cnt: "length (targeting (pid (arr ! j)) (snd res)) = 1"
    using counted_infectPass[OF ids', of now r] j len got well'
    by (simp add: counted_def res_def)
  then obtain c where c: "targeting (pid (arr ! j)) (snd res) = [c]"
    by (auto simp: length_Suc_conv)
  then have "c \<in> set (targeting (pid (arr ! j)) (snd res))" by simp
  then have cin: "c \<in> set (snd res)" and ctgt: "snd (cid c) = pid (arr ! j)"
    by (simp_all add: targeting_def)
  from cin obtain k j' where k: "k < length arr" and j': "j' < length arr"
    and ce: "c = edgeOf now (arr ! k) (arr ! j')"
    and kn: "js_lt (Num (calculateDistance (coordinates (arr ! k)) (coordinates (arr ! j')))) r"
    using edges_from_infectPass[of now r arr] by (auto simp: edges_from_def res_def)
  have "pid (arr ! j') = pid (arr ! j)" using ce ctgt by (simp add: edgeOf_def)
  then have "map pid arr ! j' = map pid arr ! j" using j j' len by simp
  then have jj: "j' = j"
    using nth_eq_iff_index_eq[OF ids', of j' j] j j' len by simp
  have "timestamp c = now" using ce by (simp add: edgeOf_def)
  then have kept: "c \<in> set (connections (animatePeople rnd now s))"
    using cin by (simp add: connections_animatePeople frameNewConnections_def res_def arr_def r_def)
  have pj: "pid (people s ! j) = pid (arr ! j)" using j by (simp add: arr_def frameMoved_keeps)
  have A: "isDestabilized (people (animatePeople rnd now s) ! j)"
    using got j by (simp add: nth_people_animatePeople fadeColor_keeps res_def arr_def r_def)
  have B: "infectionTime (people (animatePeople rnd now s) ! j) = Some now"
    using time j by (simp add: nth_people_animatePeople fadeColor_keeps res_def arr_def r_def)
  have C: "targeting (pid (people s ! j)) (frameNewConnections rnd now s) =
              [edgeOf now (frameMoved rnd now s ! k) (frameMoved rnd now s ! j)]"
    using c ce jj pj by (simp add: frameNewConnections_def res_def arr_def r_def)
  have "c \<in> set (targeting (pid (arr ! j)) (snd (infectPass now r arr)))"
    using c by (simp add: res_def)
  then obtain k' where k': "k' \<le> i" "fst (cid c) = pid (arr ! k')"
    using first_source[OF _ _ sick' well' _ ids', of r c now] i j len near
    by (auto simp: arr_def r_def)
  have "map pid arr ! k = map pid arr ! k'"
    using k'(2) ce k k'(1) i len by (simp add: edgeOf_def)
  then have "k = k'" using nth_eq_iff_index_eq[OF ids', of k k'] k k'(1) i len by simp
  then have ki: "k \<le> i" using k'(1) by simp
  show ?thesis
    using A B C ki kept kn ce jj
    by (intro conjI exI[of _ k]) (simp_all add: arr_def r_def)
qed

theorem infection_of_neighbour_witness:
  "((1::nat) < length (people twoSources) \<and> (2::nat) < length (people twoSources) \<and>
    isDestabilized (people twoSources ! 1) \<and> \<not> isDestabilized (people twoSources ! 2) \<and>
    js_lt (Num (calculateDistance (coordinates (frameMoved steady 1016 twoSources ! 1))
                   (coordinates (frameMoved steady 1016 twoSources ! 2))))
      (infectionRadius twoSources) \<and>
    distinct (map pid (people twoSources))) \<and>
   (isDestabilized (people (animatePeople steady 1016 twoSources) ! 2) \<and>
    infectionTime (people (animatePeople steady 1016 twoSources) ! 2) = Some 1016 \<and>
    (\<exists>k \<le> 1.
        targeting (pid (people twoSources ! 2)) (frameNewConnections steady 1016 twoSources) =
          [edgeOf 1016 (frameMoved steady 1016 twoSources ! k)
             (frameMoved steady 1016 twoSources ! 2)] \<and>
        edgeOf 1016 (frameMoved steady 1016 twoSources ! k)
             (frameMoved steady 1016 twoSources ! 2)
          \<in> set (connections (animatePeople steady 1016 twoSources)) \<and>
        js_lt (Num (calculateDistance (coordinates (frameMoved steady 1016 twoSources ! k))
                   (coordinates (frameMoved steady 1016 twoSources ! 2))))
          (infectionRadius twoSources)))"
proof (rule conjI)
  show hyps: "(1::nat) < length (people twoSources) \<and> (2::nat) < length (people twoSources) \<and>
    isDestabilized (people twoSources ! 1) \<and> \<not> isDestabilized (people twoSources ! 2) \<and>
    js_lt (Num (calculateDistance (coordinates (frameMoved steady 1016 twoSources ! 1))
                   (coordinates (frameMoved steady 1016 twoSources ! 2))))
      (infectionRadius twoSources) \<and>
    distinct (map pid (people twoSources))"
    unfolding frameMoved_twoSources
    by (simp add: example_defs calculateDistance_same_lat)
  show "isDestabilized (people (animatePeople steady 1016 twoSources) ! 2) \<and>
    infectionTime (people (animatePeople steady 1016 twoSources) ! 2) = Some 1016 \<and>
    (\<exists>k \<le> 1.
        targeting (pid (people twoSources ! 2)) (frameNewConnections steady 1016 twoSources) =
          [edgeOf 1016 (frameMoved steady 1016 twoSources ! k)
             (frameMoved steady 1016 twoSources ! 2)] \<and>
        edgeOf 1016 (frameMoved steady 1016 twoSources ! k)
             (frameMoved steady 1016 twoSources ! 2)
          \<in> set (connections (animatePeople steady 1016 twoSources)) \<and>
        js_lt (Num (calculateDistance (coordinates (frameMoved steady 1016 twoSources ! k))
                   (coordinates (frameMoved steady 1016 twoSources ! 2))))
          (infectionRadius twoSources))"
    using hyps by (intro infection_of_neighbour[where i = 1]) simp_all
qed

subsection \<open>The movement step\<close>

text \<open>
  Claim C7. In a frame with elapsed time \<open>dt = now - lastUpdateTime\<close>, an agent whose
  progress plus \<open>speed * (dt / 30)\<close> reaches 1 keeps its position, has progress 0 and has as
  destination the image in the bounds of two draws made in this frame (inside the bounds
  when the draws are in \<open>[0, 1)\<close>); any other agent has the advanced progress, keeps its
  destination and has moved by the fraction \<open>min (speed * (dt / 30)) 0.01\<close> of the remaining
  distance in each coordinate.
\<close>

theorem movement_step:
  assumes i: "i < length (people s)"
  shows "(progress (people s ! i)
            + speed (people s ! i) * (real_of_int (now - lastUpdateTime s) / 30) \<ge> 1 \<longrightarrow>
          progress (people (animatePeople rnd now s) ! i) = 0 \<and>
          coordinates (people (animatePeople rnd now s) ! i) = coordinates (people s ! i) \<and>
          (\<exists>k \<ge> seed s.
             destination (people (animatePeople rnd now s) ! i) = sample SF_BOUNDS rnd k) \<and>
          ((\<forall>n. 0 \<le> rnd n \<and> rnd n < 1) \<longrightarrow>
             inBounds SF_BOUNDS (destination (people (animatePeople rnd now s) ! i)))) \<and>
         (progress (people s ! i)
            + speed (people s ! i) * (real_of_int (now - lastUpdateTime s) / 30) < 1 \<longrightarrow>
          progress (people (animatePeople rnd now s) ! i) =
            progress (people s ! i)
            + speed (people s ! i) * (real_of_int (now - lastUpdateTime s) / 30) \<and>
          destination (people (animatePeople rnd now s) ! i) = destination (people s ! i) \<and>
          coordinates (people (animatePeople rnd now s) ! i) =
            (fst (coordinates (people s ! i))
               + (fst (destination (people s ! i)) - fst (coordinates (people s ! i)))
                 * min (speed (people s ! i) * (real_of_int (now - lastUpdateTime s) / 30)) 0.01,
             snd (coordinates (people s ! i))
               + (snd (destination (people s ! i)) - snd (coordinates (people s ! i)))
                 * min (speed (people s ! i) * (real_of_int (now - lastUpdateTime s) / 30)) 0.01))"
proof -
  obtain k where k: "k \<ge> seed s"
    and c: "coordinates (people (animatePeople rnd now s) ! i) =
             coordinates (fst (movePerson rnd (now - lastUpdateTime s) (people s ! i) k))"
    and d: "destination (people (animatePeople rnd now s) ! i) =
             destination (fst (movePerson rnd (now - lastUpdateTime s) (people s ! i) k))"
    and p: "progress (people (animatePeople rnd now s) ! i) =
             progress (fst (movePerson rnd (now - lastUpdateTime s) (people s ! i) k))"
    using frame_body[OF i, of rnd now] by blast
  have inb: "inBounds SF_BOUNDS (sample SF_BOUNDS rnd k)" if "\<forall>n. 0 \<le> rnd n \<and> rnd n < 1"
    using that by (intro sample_inBounds SF_BOUNDS_ordered) (simp_all add: less_imp_le)
  show ?thesis
  proof (intro conjI impI)
    assume a: "1 \<le> progress (people s ! i)
            + speed (people s ! i) * (real_of_int (now - lastUpdateTime s) / 30)"
    show "progress (people (animatePeople rnd now s) ! i) = 0"
      using a by (simp add: p movePerson_def Let_def)
    show "coordinates (people (animatePeople rnd now s) ! i) = coordinates (people s ! i)"
      using a by (simp add: c movePerson_def Let_def)
    have dd: "destination (people (animatePeople rnd now s) ! i) = sample SF_BOUNDS rnd k"
      using a by (simp add: d movePerson_def Let_def)
    then show "\<exists>k \<ge> seed s.
             destination (people (animatePeople rnd now s) ! i) = sample SF_BOUNDS rnd k"
      using k by blast
    show "inBounds SF_BOUNDS (destination (people (animatePeople rnd now s) ! i))"
      if "\<forall>n. 0 \<le> rnd n \<and> rnd n < 1"
      using inb[OF that] dd by simp
  next
    assume a: "progress (people s ! i)
            + speed (people s ! i) * (real_of_int (now - lastUpdateTime s) / 30) < 1"
    show "progress (people (animatePeople rnd now s) ! i) =
            progress (people s ! i)
            + speed (people s ! i) * (real_of_int (now - lastUpdateTime s) / 30)"
      using a by (simp add: p movePerson_def Let_def)
    show "destination (people (animatePeople rnd now s) ! i) = destination (people s ! i)"
      using a by (simp add: d movePerson_def Let_def)
    show "coordinates (people (animatePeople rnd now s) ! i) =
            (fst (coordinates (people s ! i))
               + (fst (destination (people s ! i)) - fst (coordinates (people s ! i)))
                 * min (speed (people s ! i) * (real_of_int (now - lastUpdateTime s) / 30)) 0.01,
             snd (coordinates (people s ! i))
               + (snd (destination (people s ! i)) - snd (coordinates (people s ! i)))
                 * min (speed (people s ! i) * (real_of_int (now - lastUpdateTime s) / 30)) 0.01)"
      using a by (simp add: c movePerson_def Let_def)
  qed
qed

theorem movement_step_witness:
  "((0::nat) < length (people strolling) \<and> (\<forall>n. 0 \<le> steady n \<and> steady n < 1) \<and>
    progress (people strolling ! 0)
      + speed (people strolling ! 0) * (real_of_int (61000 - lastUpdateTime strolling) / 30) \<ge> 1 \<and>
    progress (people strolling ! 0)
      + speed (people strolling ! 0) * (real_of_int (7000 - lastUpdateTime strolling) / 30) < 1) \<and>
   (progress (people (animatePeople steady 61000 strolling) ! 0) = 0 \<and>
    coordinates (people (animatePeople steady 61000 strolling) ! 0) = (- 122.5, 37.7) \<and>
    inBounds SF_BOUNDS (destination (people (animatePeople steady 61000 strolling) ! 0)) \<and>
    progress (people (animatePeople steady 7000 strolling) ! 0) = 0.6 \<and>
    destination (people (animatePeople steady 7000 strolling) ! 0) = (- 122.4, 37.8) \<and>
    coordinates (people (animatePeople steady 7000 strolling) ! 0) = (- 122.499, 37.701))"
  using movement_step [of 0 strolling 61000 steady] movement_step [of 0 strolling 7000 steady]
  by (simp add: strolling_def walker_def running_def initialState_def steady_def)

subsection \<open>Containment\<close>



subsection \<open>Elapsed time across a pause\<close>

text \<open>
  Claim C9 says that the elapsed time of a frame is clamped, or recomputed at resume. It is
  neither: pausing and resuming leaves \<open>lastUpdateTimeRef\<close> at the time of the last frame, and
  the next frame uses the whole interval. After a pause of six seconds the agent's progress
  goes from 0 to 0.6 in one frame; after a minute the agent, which has not moved, is
  given a new destination.
\<close>

theorem dt_recomputed_at_resume_counterexample:
  "simulationActive (toggleSimulation (toggleSimulation strolling)) \<and>
   lastUpdateTime (toggleSimulation (toggleSimulation strolling)) = 1000 \<and>
   progress (people strolling ! 0) = 0 \<and>
   progress (people (animatePeople steady 7000 (toggleSimulation (toggleSimulation strolling))) ! 0)
     = 0.6 \<and>
   progress (people (animatePeople steady 61000 (toggleSimulation (toggleSimulation strolling))) ! 0)
     = 0 \<and>
   destination (people (animatePeople steady 61000 (toggleSimulation (toggleSimulation strolling))) ! 0)
     = (- 122.45, 37.75)"
  by (simp add: people_animatePeople frameMoved_def infectPass_def outerStep_def innerLoop_def
      infectOther_def fadeColor_def movePerson_def Let_def sample_def SF_BOUNDS_def
      toggleSimulation_def strolling_def walker_def running_def initialState_def steady_def)

text \<open>
  Claim C9, as amended. Pause/resume leaves the time of the last frame unchanged; what is
  capped is the movement: in a frame whose elapsed time is not negative, an agent with
  non-negative speed moves, in each coordinate, by at most 0.01 of its remaining distance,
  however long the elapsed time.
\<close>

theorem step_cap:
  assumes i: "i < length (people s)" and v: "0 \<le> speed (people s ! i)"
    and dt: "lastUpdateTime s \<le> now"
  shows "\<bar>fst (coordinates (people (animatePeople rnd now s) ! i)) - fst (coordinates (people s ! i))\<bar>
           \<le> 0.01 * \<bar>fst (destination (people s ! i)) - fst (coordinates (people s ! i))\<bar> \<and>
         \<bar>snd (coordinates (people (animatePeople rnd now s) ! i)) - snd (coordinates (people s ! i))\<bar>
           \<le> 0.01 * \<bar>snd (destination (people s ! i)) - snd (coordinates (people s ! i))\<bar> \<and>
         lastUpdateTime (toggleSimulation s) = lastUpdateTime s"
proof -
  define p where "p = people s ! i"
  define t where "t = min (speed p * (real_of_int (now - lastUpdateTime s) / 30)) 0.01"
  obtain k where c: "coordinates (people (animatePeople rnd now s) ! i) =
             coordinates (fst (movePerson rnd (now - lastUpdateTime s) p k))"
    using frame_body[OF i, of rnd now] by (auto simp: p_def)
  have t: "0 \<le> t" "t \<le> 0.01"
    using v dt by (simp_all add: t_def p_def min_def)
  have bound: "\<bar>(d - x) * t\<bar> \<le> 0.01 * \<bar>d - x\<bar>" for d x :: real
  proof -
    have "\<bar>(d - x) * t\<bar> = \<bar>d - x\<bar> * t" using t(1) by (simp add: abs_mult)
    also have "\<dots> \<le> \<bar>d - x\<bar> * 0.01" using t(2) by (intro mult_left_mono) simp_all
    finally show ?thesis by simp
  qed
  have "\<bar>fst (coordinates (fst (movePerson rnd (now - lastUpdateTime s) p k))) - fst (coordinates p)\<bar>
           \<le> 0.01 * \<bar>fst (destination p) - fst (coordinates p)\<bar>"
    using bound[of "fst (destination p)" "fst (coordinates p)"]
    by (simp add: movePerson_def Let_def t_def)
  moreover have
    "\<bar>snd (coordinates (fst (movePerson rnd (now - lastUpdateTime s) p k))) - snd (coordinates p)\<bar>
           \<le> 0.01 * \<bar>snd (destination p) - snd (coordinates p)\<bar>"
    using bound[of "snd (destination p)" "snd (coordinates p)"]
    by (simp add: movePerson_def Let_def t_def)
  ultimately show ?thesis by (simp add: c p_def)
qed

theorem step_cap_witness:
  "((0::nat) < length (people strolling) \<and> 0 \<le> speed (people strolling ! 0) \<and>
    lastUpdateTime strolling \<le> 7000) \<and>
   (\<bar>fst (coordinates (people (animatePeople steady 7000 strolling) ! 0))
       - fst (coordinates (people strolling ! 0))\<bar>
      \<le> 0.01 * \<bar>fst (destination (people strolling ! 0)) - fst (coordinates (people strolling ! 0))\<bar> \<and>
    \<bar>snd (coordinates (people (animatePeople steady 7000 strolling) ! 0))
       - snd (coordinates (people strolling ! 0))\<bar>
      \<le> 0.01 * \<bar>snd (destination (people strolling ! 0)) - snd (coordinates (people strolling ! 0))\<bar> \<and>
    lastUpdateTime (toggleSimulation strolling) = lastUpdateTime strolling)"
proof (rule conjI)
  show hyps: "(0::nat) < length (people strolling) \<and> 0 \<le> speed (people strolling ! 0) \<and>
    lastUpdateTime strolling \<le> 7000"
    by (simp add: strolling_def walker_def running_def initialState_def)
  show "\<bar>fst (coordinates (people (animatePeople steady 7000 strolling) ! 0))
       - fst (coordinates (people strolling ! 0))\<bar>
      \<le> 0.01 * \<bar>fst (destination (people strolling ! 0)) - fst (coordinates (people strolling ! 0))\<bar> \<and>
    \<bar>snd (coordinates (people (animatePeople steady 7000 strolling) ! 0))
       - snd (coordinates (people strolling ! 0))\<bar>
      \<le> 0.01 * \<bar>snd (destination (people strolling ! 0)) - snd (coordinates (people strolling ! 0))\<bar> \<and>
    lastUpdateTime (toggleSimulation strolling) = lastUpdateTime strolling"
    using hyps by (intro step_cap) simp_all
qed

subsection \<open>Rejection of degenerate configurations\<close>

text \<open>
  Claim C2 says that a population size that is not positive makes construction fail and
  that a radius that is not positive is rejected. The first holds; there is no check of
  the radius: \<open>handleRadiusChange\<close> stores whatever \<open>parseFloat\<close> returned.
\<close>

theorem radius_stored_unchecked_counterexample:
  "infectionRadius (handleRadiusChange (Num 0) (initialState 0 0)) = Num 0 \<and>
   infectionRadius (handleRadiusChange (Num (- 1)) (initialState 0 0)) = Num (- 1)"
  by (simp add: handleRadiusChange_def)

text \<open>
  Claim C2, as amended. \<open>generatePeople\<close> fails for a negative count (\<open>RangeError\<close>) and for
  the count 0 (\<open>TypeError\<close>). \<open>handleRadiusChange\<close> stores any value. With a stored radius
  that is not positive a frame records no edge and infects nobody, and whatever the radius,
  a frame over a non-empty pool does not turn the rate into \<open>NaN\<close>.
\<close>

theorem configuration_checks:
  "(count < 0 \<longrightarrow> generatePeople rnd k now count b = Inl RangeError) \<and>
   (count = 0 \<longrightarrow> generatePeople rnd k now count b = Inl TypeError) \<and>
   infectionRadius (handleRadiusChange v s) = v \<and>
   (r \<le> 0 \<longrightarrow> infectionRadius s = Num r \<longrightarrow>
      frameNewConnections rnd now s = [] \<and>
      map isDestabilized (people (animatePeople rnd now s)) = map isDestabilized (people s)) \<and>
   (people s \<noteq> [] \<longrightarrow> infectionRate (maxStats s) \<noteq> NaN \<longrightarrow>
      infectionRate (maxStats (animatePeople rnd now s)) \<noteq> NaN)"
proof (intro conjI impI)
  show "generatePeople rnd k now count b = Inl RangeError" if "count < 0"
    using that by (simp add: generatePeople_def)
  show "generatePeople rnd k now count b = Inl TypeError" if "count = 0"
    using that by (simp add: generatePeople_def)
  show "infectionRadius (handleRadiusChange v s) = v" by simp
next
  assume r: "r \<le> 0" "infectionRadius s = Num r"
  show "frameNewConnections rnd now s = []"
    using r by (simp add: frameNewConnections_def infectPass_nonpositive)
  show "map isDestabilized (people (animatePeople rnd now s)) = map isDestabilized (people s)"
    using r
    by (intro nth_equalityI)
      (simp_all add: people_animatePeople infectPass_nonpositive fadeColor_keeps frameMoved_keeps)
next
  assume "people s \<noteq> []" "infectionRate (maxStats s) \<noteq> NaN"
  then show "infectionRate (maxStats (animatePeople rnd now s)) \<noteq> NaN"
    by (cases "infectionRate (maxStats s)") (simp_all add: maxStats_animatePeople ratePercent_def)
qed

theorem configuration_checks_witness:
  "((- 1 :: int) < 0 \<and> (0::real) \<le> 0 \<and>
    infectionRadius (handleRadiusChange (Num 0) chainOfThree) = Num 0 \<and>
    people (handleRadiusChange (Num 0) chainOfThree) \<noteq> [] \<and>
    infectionRate (maxStats (handleRadiusChange (Num 0) chainOfThree)) \<noteq> NaN) \<and>
   (generatePeople steady 0 1000 (- 1) SF_BOUNDS = Inl RangeError \<and>
    generatePeople steady 0 1000 0 SF_BOUNDS = Inl TypeError \<and>
    frameNewConnections steady 1016 (handleRadiusChange (Num 0) chainOfThree) = [] \<and>
    map isDestabilized (people (animatePeople steady 1016 (handleRadiusChange (Num 0) chainOfThree)))
      = map isDestabilized (people (handleRadiusChange (Num 0) chainOfThree)) \<and>
    infectionRate (maxStats (animatePeople steady 1016 (handleRadiusChange (Num 0) chainOfThree)))
      \<noteq> NaN)"
proof (rule conjI)
  show hyps: "(- 1 :: int) < 0 \<and> (0::real) \<le> 0 \<and>
    infectionRadius (handleRadiusChange (Num 0) chainOfThree) = Num 0 \<and>
    people (handleRadiusChange (Num 0) chainOfThree) \<noteq> [] \<and>
    infectionRate (maxStats (handleRadiusChange (Num 0) chainOfThree)) \<noteq> NaN"
    by (simp add: handleRadiusChange_def example_defs)
  show "generatePeople steady 0 1000 (- 1) SF_BOUNDS = Inl RangeError \<and>
    generatePeople steady 0 1000 0 SF_BOUNDS = Inl TypeError \<and>
    frameNewConnections steady 1016 (handleRadiusChange (Num 0) chainOfThree) = [] \<and>
    map isDestabilized (people (animatePeople steady 1016 (handleRadiusChange (Num 0) chainOfThree)))
      = map isDestabilized (people (handleRadiusChange (Num 0) chainOfThree)) \<and>
    infectionRate (maxStats (animatePeople steady 1016 (handleRadiusChange (Num 0) chainOfThree)))
      \<noteq> NaN"
    using hyps
      configuration_checks [where count = "- 1" and rnd = steady and k = 0 and now = 1000
        and b = SF_BOUNDS and v = "Num 0" and s = chainOfThree and r = 0]
      configuration_checks [where count = 0 and rnd = steady and k = 0 and now = 1000
        and b = SF_BOUNDS]
      configuration_checks [where rnd = steady and now = 1016 and r = 0
        and s = "handleRadiusChange (Num 0) chainOfThree"]
    by simp
qed

subsection \<open>The state after a reset\<close>

text \<open>
  Claim C3. \<open>handleReset\<close> succeeds; afterwards the pool has 200 agents with ids
  \<open>0, ..., 199\<close>, the only infected agent is the one at index 0, which has id 0 and infection
  time \<open>now\<close>, the statistics and the running maxima show 1 infected agent and the rate
  \<open>100 / 200\<close>, the history is the single point \<open>(0, 1)\<close> and the ledger is empty.
\<close>

theorem reset_state:
  "\<exists>s'. handleReset rnd now now' s = Inr s' \<and>
     length (people s') = 200 \<and>
     map pid (people s') = [0..<200] \<and>
     filter isDestabilized (people s') = [people s' ! 0] \<and>
     pid (people s' ! 0) = 0 \<and>
     infectionTime (people s' ! 0) = Some now \<and>
     infectedAgents (statistics s') = 1 \<and>
     infectionRate (statistics s') = Num (100 / real (length (people s'))) \<and>
     infectedAgents (maxStats s') = 1 \<and>
     infectionRate (maxStats s') = Num (100 / real (length (people s'))) \<and>
     infectionHistory s' = [\<lparr>time = 0, infected = 1\<rparr>] \<and>
     connections s' = []"
proof -
  define zero where "zero = (newPerson SF_BOUNDS rnd (seed s) 0)\<lparr>isDestabilized := True,
      infectionTime := Some now, color := RGB 255 50 50\<rparr>"
  define others where "others = map (\<lambda>i. newPerson SF_BOUNDS rnd (seed s + 8 * i) i) [1..<200]"
  define s' where "s' = s\<lparr>people := zero # others, connections := [],
      maxStats := \<lparr>totalAgents = None, infectedAgents = 1, infectionRate = Num 0.5\<rparr>,
      statistics := \<lparr>totalAgents = Some (length (zero # others)), infectedAgents = 1,
                     infectionRate = ratePercent 1 (length (zero # others))\<rparr>,
      infectionHistory := [\<lparr>time = 0, infected = 1\<rparr>],
      currentTime := 0, startTime := now', seed := seed s + 1600\<rparr>"
  have r: "handleReset rnd now now' s = Inr s'"
    by (simp add: handleReset_def generatePeople_200 s'_def zero_def others_def)
  have len: "length (zero # others) = 200" by (simp add: others_def)
  have ids: "map pid (zero # others) = [0..<200]"
  proof -
    have "[0..<200] = 0 # [1..<200]" by (simp add: upt_conv_Cons)
    moreover have "pid zero = 0" by (simp add: zero_def newPerson_def)
    moreover have "map pid others = [1..<200]" unfolding others_def by (rule map_pid_new)
    ultimately show ?thesis by simp
  qed
  have sick: "filter isDestabilized (zero # others) = [zero]"
  proof -
    have "isDestabilized zero" by (simp add: zero_def)
    moreover have "filter isDestabilized others = []"
      unfolding others_def by (rule filter_sick_new)
    ultimately show ?thesis by simp
  qed
  have z: "pid zero = 0" "infectionTime zero = Some now"
    by (simp_all add: zero_def newPerson_def)
  have p: "people s' = zero # others" by (simp add: s'_def)
  have st: "statistics s' = \<lparr>totalAgents = Some 200, infectedAgents = 1,
                     infectionRate = Num (1 / 2)\<rparr>"
    unfolding s'_def len using ratePercent_1_200 by simp
  have mx: "maxStats s' = \<lparr>totalAgents = None, infectedAgents = 1, infectionRate = Num (1 / 2)\<rparr>"
    by (simp add: s'_def)
  have rest: "infectionHistory s' = [\<lparr>time = 0, infected = 1\<rparr>]" "connections s' = []"
    by (simp_all add: s'_def)
  show ?thesis
    using r len ids sick z rest
    by (intro exI[of _ s']) (simp add: p st mx)
qed

subsection \<open>Monotone statistics\<close>

text \<open>
  Claim C4. In a run, that is from the mounted page or from a reset on and under events other
  than a reset, the statistics never decrease: for states \<open>a \<le> b\<close> of the run, the
  infected count and the rate at \<open>b\<close> are at least those at \<open>a\<close>, for the \<open>statistics\<close> state
  and for the running maxima the page displays.
\<close>

theorem statistics_monotone:
  assumes start: "s0 = mounted rnd t_last t_start t \<or> s0 = step rnd s (Reset t t')"
    and run: "list_all (\<lambda>e. \<not> isReset e) es"
    and ab: "a \<le> b" "b \<le> length es"
  shows "stats_le (statistics (trace rnd s0 es ! a)) (statistics (trace rnd s0 es ! b)) \<and>
         stats_le (maxStats (trace rnd s0 es ! a)) (maxStats (trace rnd s0 es ! b))"
proof -
  have inv0: "stats_inv s0" using start stats_inv_mounted stats_inv_Reset by blast
  have "trace rnd s0 es ! a \<in> set (trace rnd s0 es)" using ab by (intro nth_mem) simp
  then have inva: "stats_inv (trace rnd s0 es ! a)" using stats_trace[OF inv0 run] by blast
  have "list_all (\<lambda>e. \<not> isReset e) (drop a es)"
    using run by (simp add: list_all_iff) (meson in_set_dropD)
  then show ?thesis
    using stats_trace[OF inva, of "drop a es" rnd] trace_later[OF ab, of rnd s0] by blast
qed

theorem statistics_monotone_witness:
  "(mounted steady 1000 1000 1001 = mounted steady 1000 1000 1001 \<and>
    list_all (\<lambda>e. \<not> isReset e) [Toggle, Frame 1016, Frame 1032] \<and>
    (1::nat) \<le> 3 \<and> (3::nat) \<le> length [Toggle, Frame 1016, Frame 1032]) \<and>
   (stats_le
      (statistics (trace steady (mounted steady 1000 1000 1001)
                     [Toggle, Frame 1016, Frame 1032] ! 1))
      (statistics (trace steady (mounted steady 1000 1000 1001)
                     [Toggle, Frame 1016, Frame 1032] ! 3)) \<and>
    stats_le
      (maxStats (trace steady (mounted steady 1000 1000 1001)
                   [Toggle, Frame 1016, Frame 1032] ! 1))
      (maxStats (trace steady (mounted steady 1000 1000 1001)
                   [Toggle, Frame 1016, Frame 1032] ! 3)))"
proof (rule conjI)
  show "mounted steady 1000 1000 1001 = mounted steady 1000 1000 1001 \<and>
    list_all (\<lambda>e. \<not> isReset e) [Toggle, Frame 1016, Frame 1032] \<and>
    (1::nat) \<le> 3 \<and> (3::nat) \<le> length [Toggle, Frame 1016, Frame 1032]"
    by simp
  show "stats_le
      (statistics (trace steady (mounted steady 1000 1000 1001)
                     [Toggle, Frame 1016, Frame 1032] ! 1))
      (statistics (trace steady (mounted steady 1000 1000 1001)
                     [Toggle, Frame 1016, Frame 1032] ! 3)) \<and>
    stats_le
      (maxStats (trace steady (mounted steady 1000 1000 1001)
                   [Toggle, Frame 1016, Frame 1032] ! 1))
      (maxStats (trace steady (mounted steady 1000 1000 1001)
                   [Toggle, Frame 1016, Frame 1032] ! 3))"
    by (rule statistics_monotone [where t_last = 1000 and t_start = 1000 and t = 1001]) simp_all
qed

subsection \<open>The recorded time series\<close>

text \<open>
  Claim C10 says that the infected values of the history never decrease, each point being
  the maximum of the current count and of the values already recorded. The comments of
  \<open>animatePeople\<close> say the same (\<open>monotonic count\<close>), but the maximum is taken over the
  history the effect closed over when the simulation was last resumed, and the current
  count skips every infected agent that reaches its destination in the frame. On the run
  below the page is mounted with all draws one half, resumed, and gets frames at 1016, 1032
  and, after a gap of twenty seconds, 21032: the recorded values are 1, 1, 200, 1 while
  all 200 agents are infected.
\<close>

theorem history_dips:
  "map infected
     (infectionHistory
        (exec steady (mounted steady 1000 1000 1000)
           [Toggle, Frame 1016, Frame 1032, Frame 21032])) = [1, 1, 200, 1] \<and>
   length (filter isDestabilized
     (people
        (exec steady (mounted steady 1000 1000 1000)
           [Toggle, Frame 1016, Frame 1032, Frame 21032]))) = 200"
proof -
  define s0 where "s0 = mounted steady 1000 1000 1000"
  define s1 where "s1 = toggleSimulation s0"
  define s2 where "s2 = animatePeople steady 1016 s1"
  define s3 where "s3 = animatePeople steady 1032 s2"
  define s4 where "s4 = animatePeople steady 21032 s3"
  have run: "exec steady (mounted steady 1000 1000 1000)
           [Toggle, Frame 1016, Frame 1032, Frame 21032] = s4"
    by (simp add: exec_def s4_def s3_def s2_def s1_def s0_def)
  have p1: "people s1 = people (mounted steady 1000 1000 1000)"
    by (simp add: s1_def s0_def)
  have c1: "capturedHistory s1 = [\<lparr>time = 0, infected = 1\<rparr>]"
    "infectionHistory s1 = [\<lparr>time = 0, infected = 1\<rparr>]"
    "lastUpdateTime s1 = 1000" "infectionRadius s1 = Num 0.003"
    by (simp_all add: s1_def s0_def toggleSimulation_def mounted_eq initialState_def)
  have cm: "currentMaxInfected [\<lparr>time = t, infected = n\<rparr>] = n" for t n
    by (simp add: currentMaxInfected_def)
  have h1: "huddled 0 (people s1)" unfolding p1 by (rule huddled_mounted)
  have l1: "length (people s1) = 200" by (simp add: p1)
  have z1: "isDestabilized (people s1 ! 0)" by (simp add: p1 mounted_eq)
  \<comment> \<open>first frame: one agent counted, everybody infected afterwards\<close>
  have f1: "frameFinalCount steady 1016 s1 = 1"
    using count_mounted[OF p1, of 1016 steady] by (simp add: frameFinalCount_def c1 cm)
  have h2: "huddled 0.0016 (people s2)"
    using huddled_frame[OF h1, of 1016 steady] by (simp add: s2_def c1)
  have a2: "\<forall>q \<in> set (people s2). isDestabilized q"
    unfolding s2_def
    by (rule huddled_all_infected[OF h1, of 1016 0]) (simp_all add: c1 l1 z1)
  have c2: "capturedHistory s2 = [\<lparr>time = 0, infected = 1\<rparr>]" "lastUpdateTime s2 = 1016"
    by (simp_all add: s2_def c1)
  have l2: "length (people s2) = 200" by (simp add: s2_def l1)
  \<comment> \<open>second frame: all 200 agents counted\<close>
  have "frameInfectedCount steady 1032 s2 = length (people s2)"
    by (rule count_all[OF h2 a2]) (simp add: c2)
  then have f2: "frameFinalCount steady 1032 s2 = 200"
    by (simp add: frameFinalCount_def c2 cm l2)
  have h3: "huddled 0.0032 (people s3)"
    using huddled_frame[OF h2, of 1032 steady] by (simp add: s3_def c2)
  have a3: "\<forall>q \<in> set (people s3). isDestabilized q"
    unfolding s3_def by (rule infected_stay[OF a2])
  have c3: "capturedHistory s3 = [\<lparr>time = 0, infected = 1\<rparr>]" "lastUpdateTime s3 = 1032"
    by (simp_all add: s3_def c2)
  have l3: "length (people s3) = 200" by (simp add: s3_def l2)
  \<comment> \<open>third frame, twenty seconds later: every agent arrives and none is counted\<close>
  have "frameInfectedCount steady 21032 s3 = 0"
    by (rule count_none[OF h3]) (simp add: c3)
  then have f3: "frameFinalCount steady 21032 s3 = 1"
    by (simp add: frameFinalCount_def c3 cm)
  have a4: "\<forall>q \<in> set (people s4). isDestabilized q"
    unfolding s4_def by (rule infected_stay[OF a3])
  have l4: "length (people s4) = 200" by (simp add: s4_def l3)
  have "infectionHistory s2 =
      infectionHistory s1 @ [\<lparr>time = toFixed1 (real_of_int (1016 - startTime s1) / 1000),
                              infected = 1\<rparr>]"
    unfolding s2_def infectionHistory_animatePeople f1 by simp
  moreover have "infectionHistory s3 =
      infectionHistory s2 @ [\<lparr>time = toFixed1 (real_of_int (1032 - startTime s2) / 1000),
                              infected = 200\<rparr>]"
    unfolding s3_def infectionHistory_animatePeople f2 by simp
  moreover have "infectionHistory s4 =
      infectionHistory s3 @ [\<lparr>time = toFixed1 (real_of_int (21032 - startTime s3) / 1000),
                              infected = 1\<rparr>]"
    unfolding s4_def infectionHistory_animatePeople f3 by simp
  ultimately have "map infected (infectionHistory s4) = [1, 1, 200, 1]"
    by (simp add: c1)
  moreover have "filter isDestabilized (people s4) = people s4"
    using a4 by (intro filter_True) simp
  ultimately show ?thesis unfolding run by (simp add: l4)
qed

end
